theory Spec2Isabelle
  imports Complex_Main "HOL-Library.Word" "HOL-Library.Log_Nat"
begin

section \<open>Regular expressions as the detector and the buyers use them\<close>

text \<open>
  The JavaScript sources match text against regular-expression literals. The patterns that
  occur are built from character classes, literal characters, the assertions \<open>\b\<close>,
  \<open>^\<close> and \<open>$\<close>, sequencing, alternation, optional groups and greedy bounded or unbounded
  repetition of a character class. A position in the subject is the character before
  the cursor (if any) and the text after it. \<open>step r q\<close> lists the positions at which a match
  of \<open>r\<close> started at \<open>q\<close> can end, in the priority order of a backtracking matcher (longest
  repetition first, left alternative first), so the head of the list is the match
  JavaScript reports. A character outside ASCII is in none of the classes used and is not
  a word character, as a UTF-16 unit in JavaScript and as a byte here.
\<close>

type_synonym pos = "char option \<times> string"

datatype rx =
    Cls "char \<Rightarrow> bool"
  | Bnd
  | Bol
  | Eol
  | Eps
  | Seq rx rx
  | Alt rx rx
  | Rep nat "nat option" "char \<Rightarrow> bool"

definition lowerChars :: string where
  "lowerChars = ''abcdefghijklmnopqrstuvwxyz''"

definition upperChars :: string where
  "upperChars = ''ABCDEFGHIJKLMNOPQRSTUVWXYZ''"

definition digitChars :: string where
  "digitChars = ''0123456789''"

definition isWordChar :: "char \<Rightarrow> bool" where
  "isWordChar c =
     (c \<in> set lowerChars \<or> c \<in> set upperChars \<or> c \<in> set digitChars \<or> c = CHR ''_'')"

definition wordBefore :: "pos \<Rightarrow> bool" where
  "wordBefore q = (case fst q of None \<Rightarrow> False | Some c \<Rightarrow> isWordChar c)"

definition wordAfter :: "pos \<Rightarrow> bool" where
  "wordAfter q = (case snd q of [] \<Rightarrow> False | c # _ \<Rightarrow> isWordChar c)"

text \<open>\<open>run p n q\<close>: the positions after consuming \<open>n, n - 1, \<dots>, 0\<close> characters of class \<open>p\<close>
  (as many as the text provides), longest first.\<close>

fun run :: "(char \<Rightarrow> bool) \<Rightarrow> nat \<Rightarrow> pos \<Rightarrow> pos list" where
  "run p 0 q = [q]"
| "run p (Suc n) (prev, []) = [(prev, [])]"
| "run p (Suc n) (prev, c # cs) =
     (if p c then run p n (Some c, cs) @ [(prev, c # cs)] else [(prev, c # cs)])"

fun step :: "rx \<Rightarrow> pos \<Rightarrow> pos list" where
  "step (Cls p) (prev, []) = []"
| "step (Cls p) (prev, c # cs) = (if p c then [(Some c, cs)] else [])"
| "step Bnd q = (if wordBefore q \<noteq> wordAfter q then [q] else [])"
| "step Bol q = (if fst q = None then [q] else [])"
| "step Eol q = (if snd q = [] then [q] else [])"
| "step Eps q = [q]"
| "step (Seq a b) q = concat (map (step b) (step a q))"
| "step (Alt a b) q = step a q @ step b q"
| "step (Rep m n p) q =
     (let k = (case n of None \<Rightarrow> length (snd q) | Some n' \<Rightarrow> n')
      in filter (\<lambda>q'. m + length (snd q') \<le> length (snd q)) (run p k q))"

text \<open>
  \<open>String.prototype.match\<close> with a global (\<open>g\<close>) pattern: scan from the left, report each
  match, resume at its end; where no match starts, move one character on. An empty match is
  reported and the scan moves one character on.
\<close>

function scan :: "rx \<Rightarrow> pos \<Rightarrow> string list" where
  "scan r (prev, s) =
     (case step r (prev, s) of
        [] \<Rightarrow> (case s of [] \<Rightarrow> [] | c # cs \<Rightarrow> scan r (Some c, cs))
      | (prev', s') # _ \<Rightarrow>
          if length s' < length s then take (length s - length s') s # scan r (prev', s')
          else [] # (case s of [] \<Rightarrow> [] | c # cs \<Rightarrow> scan r (Some c, cs)))"
  by pat_completeness auto
termination
  by (relation "measure (\<lambda>(r, q). length (snd q))") auto

declare scan.simps [simp del]

definition match_g :: "rx \<Rightarrow> string \<Rightarrow> string list" where
  "match_g r text = scan r (None, text)"

text \<open>\<open>text.match(r)\<close> used as a condition: null (falsy) exactly when nothing matches.\<close>

definition match_found :: "rx \<Rightarrow> string \<Rightarrow> bool" where
  "match_found r text = (match_g r text \<noteq> [])"

subsection \<open>RegExp objects and their \<open>lastIndex\<close>\<close>

text \<open>
  A RegExp object with the \<open>g\<close> flag has state: its property \<open>lastIndex\<close>. A pattern kept
  in a field and used again carries that state from one use to the next, so the matcher is
  given here a second time as the language defines it, on indices and with \<open>lastIndex\<close>
  passed in and out. \<open>posAt text i\<close> is the position at index \<open>i\<close> of \<open>text\<close>.

  \<open>regExpExec\<close> is one \<open>exec\<close> of a global pattern: it fails when \<open>lastIndex\<close> is beyond the
  end of the text; else it looks for the first index from \<open>lastIndex\<close> on at which the pattern
  matches; a match is returned with \<open>lastIndex\<close> set to its end, a failure sets \<open>lastIndex\<close>
  to 0.
\<close>

definition posAt :: "string \<Rightarrow> nat \<Rightarrow> pos" where
  "posAt text i = (if i = 0 then None else Some (text ! (i - 1)), drop i text)"

fun findFrom :: "rx \<Rightarrow> pos \<Rightarrow> (pos \<times> pos) option" where
  "findFrom r (prev, []) =
     (case step r (prev, []) of [] \<Rightarrow> None | q # _ \<Rightarrow> Some ((prev, []), q))"
| "findFrom r (prev, c # cs) =
     (case step r (prev, c # cs) of
        [] \<Rightarrow> findFrom r (Some c, cs)
      | q # _ \<Rightarrow> Some ((prev, c # cs), q))"

definition regExpExec :: "rx \<Rightarrow> nat \<Rightarrow> string \<Rightarrow> string option \<times> nat" where
  "regExpExec r lastIndex text =
     (if lastIndex > length text then (None, 0)
      else
        (case findFrom r (posAt text lastIndex) of
           None \<Rightarrow> (None, 0)
         | Some (start, end) \<Rightarrow>
             (Some (take (length (snd start) - length (snd end)) (snd start)),
              length text - length (snd end))))"

text \<open>
  The loop of \<open>String.prototype.match\<close> for a global pattern: \<open>exec\<close> until it fails,
  collecting the matches; after an empty match \<open>lastIndex\<close> is moved one index on. The loop
  returns the matches and the \<open>lastIndex\<close> it leaves behind. An \<open>exec\<close> that succeeds always
  leaves the loop with a larger index (lemma \<open>exec_progress\<close>), so the last branch is never
  taken; it makes the recursion terminate by its form.
\<close>

function matchLoop :: "rx \<Rightarrow> nat \<Rightarrow> string \<Rightarrow> string list \<times> nat" where
  "matchLoop r lastIndex text =
     (case regExpExec r lastIndex text of
        (None, li) \<Rightarrow> ([], li)
      | (Some m, li) \<Rightarrow>
          (let thisIndex = (if m = [] then li + 1 else li)
           in if lastIndex < thisIndex then
                (case matchLoop r thisIndex text of (ms, final) \<Rightarrow> (m # ms, final))
              else ([m], thisIndex)))"
  by pat_completeness auto
termination
  by (relation "measure (\<lambda>(r, lastIndex, text). Suc (length text) - lastIndex)")
    (auto simp: regExpExec_def split: if_splits)

declare matchLoop.simps [simp del]

text \<open>\<open>text.match(r)\<close> for a global RegExp object \<open>r\<close> whose \<open>lastIndex\<close> is \<open>lastIndex\<close> at
  the call: the first step sets \<open>lastIndex\<close> to 0, then the loop runs. The result is the
  list of matches (empty for \<open>null\<close>) and the \<open>lastIndex\<close> of the object after the call.\<close>

definition stringMatch :: "rx \<Rightarrow> nat \<Rightarrow> string \<Rightarrow> string list \<times> nat" where
  "stringMatch r lastIndex text = (let lastIndex = 0 in matchLoop r lastIndex text)"

definition lit :: "string \<Rightarrow> rx" where
  "lit s = foldr (\<lambda>c r. Seq (Cls (\<lambda>x. x = c)) r) s Eps"

definition hexChars :: string where
  "hexChars = ''abcdefABCDEF0123456789''"

text \<open>\<open>/^0x[a-fA-F0-9]{40}$/\<close>, the pattern of \<open>BSCTokenBuyer.buyToken\<close> and
  \<open>AddressDetector.isValidBSCAddress\<close>.\<close>

definition bscExactRegex :: rx where
  "bscExactRegex =
     Seq Bol (Seq (lit ''0x'') (Seq (Rep 40 (Some 40) (\<lambda>c. c \<in> set hexChars)) Eol))"

text \<open>The exact pattern in plain words: the two characters \<open>0x\<close> followed by exactly 40
  hexadecimal digits and nothing else.\<close>

definition isBscFormat :: "string \<Rightarrow> bool" where
  "isBscFormat s =
     (length s = 42 \<and> take 2 s = ''0x'' \<and> (\<forall>c \<in> set (drop 2 s). c \<in> set hexChars))"

section \<open>Token buyers: the venue chains\<close>

type_synonym address = string

datatype venue = FourMeme | PancakeSwap | PumpFun | Meteora | Raydium

text \<open>The object a buyer returns: \<open>{success: true, platform, amount, hash/signature,
  tokenReceived}\<close> (\<open>Bought\<close>, the fields in this order) or \<open>{success: false, error}\<close>
  (\<open>Failed\<close>). \<open>tokenReceived\<close> is the decimal string of
  an unsigned integer in the source and that integer here.\<close>

datatype buy_result =
    Bought string int string "nat option"
  | Failed string

definition success :: "buy_result \<Rightarrow> bool" where
  "success r = (case r of Bought _ _ _ _ \<Rightarrow> True | Failed _ \<Rightarrow> False)"

text \<open>What a call of \<open>buyToken\<close> does to the outside world, in order: reading the wallet
  balance, reading the token contract, probing a venue, starting a trade on a venue with an
  amount.\<close>

datatype event = BalanceRead | TokenInfoRead | Probe venue | Trade venue int

definition probes :: "event list \<Rightarrow> venue list" where
  "probes tr = concat (map (\<lambda>e. case e of Probe v \<Rightarrow> [v] | _ \<Rightarrow> []) tr)"

definition trades :: "event list \<Rightarrow> (venue \<times> int) list" where
  "trades tr = concat (map (\<lambda>e. case e of Trade v n \<Rightarrow> [(v, n)] | _ \<Rightarrow> []) tr)"

subsection \<open>BSC (src/utils/bscTokenBuyer.js)\<close>

text \<open>
  A JavaScript number that is finite is the rational it denotes; an operation that produces a
  number rounds its exact result to the nearest double (binary64: 53 significant bits, ties
  to the even significand, exponents from -1022). \<open>binade x\<close> is the exponent \<open>e\<close> with
  \<open>2\<^sup>e \<le> x < 2\<^sup>e\<^sup>+\<^sup>1\<close> of a positive \<open>x\<close>. Overflow to \<open>Infinity\<close> needs a magnitude of
  \<open>2\<^sup>1\<^sup>0\<^sup>2\<^sup>4\<close>, out of reach of a balance of at most \<open>2\<^sup>2\<^sup>5\<^sup>6\<close> wei or \<open>2\<^sup>6\<^sup>4\<close> lamports, and is
  not modelled.
\<close>

definition binade :: "rat \<Rightarrow> int" where
  "binade x =
     (let (a, b) = quotient_of x; d = bitlen a - bitlen b
      in if 2 powi d \<le> x then d else d - 1)"

definition roundHalfEven :: "rat \<Rightarrow> int" where
  "roundHalfEven k =
     (let f = \<lfloor>k\<rfloor>; r = k - of_int f
      in if r < 1 / 2 then f else if 1 / 2 < r then f + 1 else if even f then f else f + 1)"

definition toDouble :: "rat \<Rightarrow> rat" where
  "toDouble x =
     (if x = 0 then 0
      else let e = max (binade \<bar>x\<bar>) (- 1022); q = 2 powi (e - 52)
           in sgn x * of_int (roundHalfEven (\<bar>x\<bar> / q)) * q)"

text \<open>
  The chain as the buyer sees it. Every remote read either throws (\<open>Inl\<close> the message of
  the error) or returns. \<open>bscBalance\<close> is what \<open>publicClient.getBalance\<close> returns: the
  balance in wei, a bigint.
\<close>

record bsc_world =
  bscBalance :: "string + int"
  erc20Info :: "address \<Rightarrow> string + (string \<times> string \<times> nat)"
  isTokenLive :: "address \<Rightarrow> string + bool"
  getTokenPrice :: "address \<Rightarrow> string + nat"
  getBuyQuote :: "address \<Rightarrow> string + nat"
  getAmountsIn :: "address \<Rightarrow> string + nat list"
  estimateGas :: "venue \<Rightarrow> address \<Rightarrow> int \<Rightarrow> string + nat"
  sendTransaction :: "venue \<Rightarrow> address \<Rightarrow> int \<Rightarrow> nat \<Rightarrow> string + string"
  receiptSuccess :: "string \<Rightarrow> string + bool"
  balanceOf :: "address \<Rightarrow> string + nat"

text \<open>\<open>getBalance\<close>: \<open>parseFloat(formatEther(balance))\<close>. \<open>formatEther\<close> writes the wei
  amount divided by \<open>10\<^sup>1\<^sup>8\<close> as an exact decimal string; \<open>parseFloat\<close> reads that string as
  the nearest double.\<close>

definition formatEther :: "int \<Rightarrow> rat" where
  "formatEther wei = of_int wei / 10 ^ 18"

definition bsc_getBalance :: "bsc_world \<Rightarrow> string + rat" where
  "bsc_getBalance w =
     (case bscBalance w of
        Inl e \<Rightarrow> Inl e
      | Inr balance \<Rightarrow> Inr (toDouble (formatEther balance)))"

text \<open>\<open>getTokenInfo\<close>: name, symbol and decimals read together; any failure gives
  \<open>{exists: false}\<close>, here \<open>None\<close>.\<close>

definition getTokenInfo :: "bsc_world \<Rightarrow> address \<Rightarrow> (string \<times> string \<times> nat) option" where
  "getTokenInfo w tokenAddress =
     (case erc20Info w tokenAddress of Inl _ \<Rightarrow> None | Inr info \<Rightarrow> Some info)"

text \<open>\<open>checkFourMeme\<close>: \<open>Some (price, testQuote)\<close> stands for \<open>{isAvailable: true, price,
  testQuote}\<close>, \<open>None\<close> for \<open>{isAvailable: false}\<close>. A throwing read is caught and gives
  \<open>{isAvailable: false}\<close>.\<close>

definition checkFourMeme :: "bsc_world \<Rightarrow> address \<Rightarrow> (nat \<times> nat) option" where
  "checkFourMeme w tokenAddress =
     (case isTokenLive w tokenAddress of
        Inl _ \<Rightarrow> None
      | Inr isLive \<Rightarrow>
          if isLive then
            (case getTokenPrice w tokenAddress of
               Inl _ \<Rightarrow> None
             | Inr price \<Rightarrow>
                 (case getBuyQuote w tokenAddress of
                    Inl _ \<Rightarrow> None
                  | Inr tokensOut \<Rightarrow> Some (price, tokensOut)))
          else None)"

definition isAvailable :: "(nat \<times> nat) option \<Rightarrow> bool" where
  "isAvailable c = (c \<noteq> None)"

text \<open>\<open>checkPancakeSwapLiquidity\<close>: \<open>Some testQuote\<close> stands for \<open>{hasLiquidity: true,
  testQuote}\<close>. The quote is \<open>amounts[1]\<close>; where the array has one element,
  \<open>formatEther(undefined)\<close> throws and the catch gives \<open>{hasLiquidity: false}\<close>.\<close>

definition checkPancakeSwapLiquidity :: "bsc_world \<Rightarrow> address \<Rightarrow> nat option" where
  "checkPancakeSwapLiquidity w tokenAddress =
     (case getAmountsIn w tokenAddress of
        Inl _ \<Rightarrow> None
      | Inr amounts \<Rightarrow>
          if length amounts > 0 then
            (if length amounts > 1 then Some (amounts ! 1) else None)
          else None)"

definition hasLiquidity :: "nat option \<Rightarrow> bool" where
  "hasLiquidity c = (c \<noteq> None)"

text \<open>The two trade adapters have one shape: re-read the token contract, estimate gas,
  send the transaction with a 20 percent gas buffer, wait for the receipt, read the token
  balance. Every throw inside is caught and returned as \<open>{success: false, error}\<close>.\<close>

definition platformName :: "venue \<Rightarrow> string" where
  "platformName v =
     (case v of FourMeme \<Rightarrow> ''Four.meme'' | PancakeSwap \<Rightarrow> ''PancakeSwap''
      | PumpFun \<Rightarrow> ''Pump.fun'' | Meteora \<Rightarrow> ''Meteora'' | Raydium \<Rightarrow> ''Raydium'')"

definition bsc_buyOn :: "venue \<Rightarrow> bsc_world \<Rightarrow> address \<Rightarrow> int \<Rightarrow> buy_result" where
  "bsc_buyOn v w tokenAddress amountBNB =
     (case getTokenInfo w tokenAddress of
        None \<Rightarrow> Failed ''Token contract not found or invalid''
      | Some _ \<Rightarrow>
          (case estimateGas w v tokenAddress amountBNB of
             Inl e \<Rightarrow> Failed e
           | Inr gasEstimate \<Rightarrow>
               (case sendTransaction w v tokenAddress amountBNB (gasEstimate * 120 div 100) of
                  Inl e \<Rightarrow> Failed e
                | Inr hash \<Rightarrow>
                    (case receiptSuccess w hash of
                       Inl e \<Rightarrow> Failed e
                     | Inr ok \<Rightarrow>
                         if ok then
                           (case balanceOf w tokenAddress of
                              Inl e \<Rightarrow> Failed e
                            | Inr tokenBalance \<Rightarrow>
                                Bought (platformName v) amountBNB hash (Some tokenBalance))
                         else Failed ''Transaction failed''))))"

definition buyOnFourMeme :: "bsc_world \<Rightarrow> address \<Rightarrow> int \<Rightarrow> buy_result" where
  "buyOnFourMeme = bsc_buyOn FourMeme"

definition buyOnPancakeSwap :: "bsc_world \<Rightarrow> address \<Rightarrow> int \<Rightarrow> buy_result" where
  "buyOnPancakeSwap = bsc_buyOn PancakeSwap"

text \<open>\<open>BSCTokenBuyer.buyToken\<close>. The result comes with the trace of what the call did.
  The only call inside the outer \<open>try\<close> that can throw is \<open>getBalance\<close>; the outer
  \<open>catch\<close> turns it into \<open>{success: false, error: error.message}\<close>.\<close>

definition bsc_buyToken :: "bsc_world \<Rightarrow> address \<Rightarrow> buy_result \<times> event list" where
  "bsc_buyToken w tokenAddress =
     (if \<not> match_found bscExactRegex tokenAddress then (Failed ''Invalid address format'', [])
      else
        (case bsc_getBalance w of
           Inl e \<Rightarrow> (Failed e, [BalanceRead])
         | Inr balance \<Rightarrow>
             (let buyAmount = \<lfloor>balance\<rfloor> in
              if buyAmount < 1 then (Failed ''Insufficient balance'', [BalanceRead])
              else if getTokenInfo w tokenAddress = None
              then (Failed ''Invalid token contract'', [BalanceRead, TokenInfoRead])
              else if isAvailable (checkFourMeme w tokenAddress)
              then (buyOnFourMeme w tokenAddress buyAmount,
                    [BalanceRead, TokenInfoRead, Probe FourMeme, Trade FourMeme buyAmount])
              else if hasLiquidity (checkPancakeSwapLiquidity w tokenAddress)
              then (buyOnPancakeSwap w tokenAddress buyAmount,
                    [BalanceRead, TokenInfoRead, Probe FourMeme, Probe PancakeSwap,
                     Trade PancakeSwap buyAmount])
              else (Failed ''Token not available on supported platforms'',
                    [BalanceRead, TokenInfoRead, Probe FourMeme, Probe PancakeSwap]))))"

text \<open>The earlier \<open>BSCTokenBuyer\<close> (src/unnamed/part_005) knows PancakeSwap only; its
  \<open>getBalance\<close>, \<open>getTokenInfo\<close>, \<open>checkPancakeSwapLiquidity\<close> and \<open>buyOnPancakeSwap\<close> are
  those above.\<close>

definition bsc_buyToken_first :: "bsc_world \<Rightarrow> address \<Rightarrow> buy_result \<times> event list" where
  "bsc_buyToken_first w tokenAddress =
     (if \<not> match_found bscExactRegex tokenAddress then (Failed ''Invalid address format'', [])
      else
        (case bsc_getBalance w of
           Inl e \<Rightarrow> (Failed e, [BalanceRead])
         | Inr balance \<Rightarrow>
             (let buyAmount = \<lfloor>balance\<rfloor> in
              if buyAmount < 1 then (Failed ''Insufficient balance'', [BalanceRead])
              else if getTokenInfo w tokenAddress = None
              then (Failed ''Invalid token contract'', [BalanceRead, TokenInfoRead])
              else if \<not> hasLiquidity (checkPancakeSwapLiquidity w tokenAddress)
              then (Failed ''No liquidity on PancakeSwap'',
                    [BalanceRead, TokenInfoRead, Probe PancakeSwap])
              else (buyOnPancakeSwap w tokenAddress buyAmount,
                    [BalanceRead, TokenInfoRead, Probe PancakeSwap,
                     Trade PancakeSwap buyAmount]))))"

subsection \<open>Solana (SolanaTokenBuyer, the revision with Meteora)\<close>

record pump_coin =
  coinName :: string
  coinSymbol :: string
  coinPriceSOL :: rat

record raydium_pool =
  ammId :: string
  baseMint :: address
  quoteMint :: address

datatype meteora_pool_type = DLMM | DynamicAMM

record amm_pool =
  ammAddress :: string
  tokenAMint :: address
  tokenBMint :: address

text \<open>
  \<open>pumpFunApi\<close>: the fetch throws, answers with a status that is not ok (\<open>None\<close>), or
  answers with the coin. \<open>raydiumPairs\<close> likewise, with the list of all pairs.
  \<open>validPublicKey\<close>: whether \<open>new PublicKey(tokenAddress)\<close> returns rather than throws.
  The \<open>Tx\<close> fields stand for everything a trade adapter does after its logging, up to the
  confirmed signature.
\<close>

record sol_world =
  solBalance :: "string + int"
  pumpFunApi :: "address \<Rightarrow> string + pump_coin option"
  raydiumPairs :: "string + raydium_pool list option"
  validPublicKey :: "address \<Rightarrow> bool"
  dlmmPositionsByUser :: "string + unit"
  dlmmFindLbPair :: "address \<Rightarrow> string + string option"
  dlmmCreate :: "string \<Rightarrow> string + unit"
  ammPoolList :: "string + amm_pool list"
  pumpFunTx :: "address \<Rightarrow> int \<Rightarrow> string + string"
  raydiumTx :: "address \<Rightarrow> int \<Rightarrow> string + string"
  meteoraTx :: "meteora_pool_type \<Rightarrow> string \<Rightarrow> address \<Rightarrow> int \<Rightarrow> string + string"

definition SOL_MINT :: address where
  "SOL_MINT = ''So11111111111111111111111111111111111111112''"

text \<open>\<open>getBalance\<close>: \<open>balance / LAMPORTS_PER_SOL\<close>. \<open>connection.getBalance\<close> returns the
  lamports as a number, so an amount above \<open>2\<^sup>5\<^sup>3\<close> is already rounded; the division of two
  numbers rounds again.\<close>

definition LAMPORTS_PER_SOL :: rat where
  "LAMPORTS_PER_SOL = 1000000000"

definition sol_getBalance :: "sol_world \<Rightarrow> string + rat" where
  "sol_getBalance w =
     (case solBalance w of
        Inl e \<Rightarrow> Inl e
      | Inr balance \<Rightarrow> Inr (toDouble (toDouble (of_int balance) / LAMPORTS_PER_SOL)))"

definition checkPumpFun :: "sol_world \<Rightarrow> address \<Rightarrow> pump_coin option" where
  "checkPumpFun w tokenAddress =
     (case pumpFunApi w tokenAddress of
        Inl _ \<Rightarrow> None
      | Inr response \<Rightarrow> response)"

definition checkRaydium :: "sol_world \<Rightarrow> address \<Rightarrow> raydium_pool option" where
  "checkRaydium w tokenAddress =
     (case raydiumPairs w of
        Inl _ \<Rightarrow> None
      | Inr None \<Rightarrow> None
      | Inr (Some pairs) \<Rightarrow>
          find (\<lambda>p. baseMint p = tokenAddress \<or> quoteMint p = tokenAddress) pairs)"

text \<open>\<open>checkMeteora\<close>: \<open>Some (poolType, poolAddress)\<close> stands for \<open>{exists: true, poolType,
  data}\<close>. A throw of the position query or of \<open>new PublicKey\<close> reaches the outer catch;
  a throw inside the DLMM lookup or the Dynamic AMM lookup is caught where it happens and the
  function goes on.\<close>

definition checkMeteora :: "sol_world \<Rightarrow> address \<Rightarrow> (meteora_pool_type \<times> string) option" where
  "checkMeteora w tokenAddress =
     (case dlmmPositionsByUser w of
        Inl _ \<Rightarrow> None
      | Inr _ \<Rightarrow>
          if \<not> validPublicKey w tokenAddress then None
          else
            (let dlmm =
               (case dlmmFindLbPair w tokenAddress of
                  Inl _ \<Rightarrow> None
                | Inr None \<Rightarrow> None
                | Inr (Some poolAddress) \<Rightarrow>
                    (case dlmmCreate w poolAddress of
                       Inl _ \<Rightarrow> None
                     | Inr _ \<Rightarrow> Some (DLMM, poolAddress)))
             in case dlmm of
                  Some found \<Rightarrow> Some found
                | None \<Rightarrow>
                    (case ammPoolList w of
                       Inl _ \<Rightarrow> None
                     | Inr ammPools \<Rightarrow>
                         (case find (\<lambda>pool.
                                  (tokenAMint pool = tokenAddress \<and> tokenBMint pool = SOL_MINT) \<or>
                                  (tokenBMint pool = tokenAddress \<and> tokenAMint pool = SOL_MINT))
                                ammPools of
                            None \<Rightarrow> None
                          | Some targetPool \<Rightarrow> Some (DynamicAMM, ammAddress targetPool)))))"

definition buyOnPumpFun :: "sol_world \<Rightarrow> address \<Rightarrow> int \<Rightarrow> buy_result" where
  "buyOnPumpFun w tokenAddress amountSOL =
     (if \<not> validPublicKey w tokenAddress then Failed ''Invalid public key input''
      else
        (case pumpFunTx w tokenAddress amountSOL of
           Inl e \<Rightarrow> Failed e
         | Inr signature \<Rightarrow> Bought ''Pump.fun'' amountSOL signature None))"

definition buyOnRaydium :: "sol_world \<Rightarrow> address \<Rightarrow> int \<Rightarrow> buy_result" where
  "buyOnRaydium w tokenAddress amountSOL =
     (if \<not> validPublicKey w tokenAddress then Failed ''Invalid public key input''
      else
        (case raydiumTx w tokenAddress amountSOL of
           Inl e \<Rightarrow> Failed e
         | Inr signature \<Rightarrow> Bought ''Raydium'' amountSOL signature None))"

definition buyOnMeteora ::
  "sol_world \<Rightarrow> address \<Rightarrow> int \<Rightarrow> meteora_pool_type \<times> string \<Rightarrow> buy_result" where
  "buyOnMeteora w tokenAddress amountSOL poolInfo =
     (if \<not> validPublicKey w tokenAddress then Failed ''Invalid public key input''
      else
        (case meteoraTx w (fst poolInfo) (snd poolInfo) tokenAddress amountSOL of
           Inl e \<Rightarrow> Failed e
         | Inr signature \<Rightarrow>
             (case fst poolInfo of
                DLMM \<Rightarrow> Bought ''Meteora DLMM'' amountSOL signature None
              | DynamicAMM \<Rightarrow> Bought ''Meteora Dynamic AMM'' amountSOL signature None)))"

text \<open>\<open>SolanaTokenBuyer.buyToken\<close>: no check of the address; balance, then Pump.fun,
  Meteora, Raydium.\<close>

definition sol_buyToken :: "sol_world \<Rightarrow> address \<Rightarrow> buy_result \<times> event list" where
  "sol_buyToken w tokenAddress =
     (case sol_getBalance w of
        Inl e \<Rightarrow> (Failed e, [BalanceRead])
      | Inr balance \<Rightarrow>
          (let buyAmount = \<lfloor>balance\<rfloor> in
           if buyAmount < 1 then (Failed ''Insufficient balance'', [BalanceRead])
           else if checkPumpFun w tokenAddress \<noteq> None
           then (buyOnPumpFun w tokenAddress buyAmount,
                 [BalanceRead, Probe PumpFun, Trade PumpFun buyAmount])
           else
             (case checkMeteora w tokenAddress of
                Some meteoraCheck \<Rightarrow>
                  (buyOnMeteora w tokenAddress buyAmount meteoraCheck,
                   [BalanceRead, Probe PumpFun, Probe Meteora, Trade Meteora buyAmount])
              | None \<Rightarrow>
                  if checkRaydium w tokenAddress \<noteq> None
                  then (buyOnRaydium w tokenAddress buyAmount,
                        [BalanceRead, Probe PumpFun, Probe Meteora, Probe Raydium,
                         Trade Raydium buyAmount])
                  else (Failed ''Token not found on supported DEXs'',
                        [BalanceRead, Probe PumpFun, Probe Meteora, Probe Raydium]))))"

section \<open>The address detector (AddressDetector)\<close>

definition base58Alphabet :: string where
  "base58Alphabet = ''123456789ABCDEFGHJKLMNPQRSTUVWXYZabcdefghijkmnopqrstuvwxyz''"

definition isBase58 :: "char \<Rightarrow> bool" where
  "isBase58 c = (c \<in> set base58Alphabet)"

text \<open>\<open>this.solanaRegex = /\b[1-9A-HJ-NP-Za-km-z]{32,44}\b/g\<close>\<close>

definition solanaRegex :: rx where
  "solanaRegex = Seq Bnd (Seq (Rep 32 (Some 44) isBase58) Bnd)"

text \<open>\<open>this.bscRegex = /\b0x[a-fA-F0-9]{40}\b/g\<close>\<close>

definition bscRegex :: rx where
  "bscRegex = Seq Bnd (Seq (lit ''0x'') (Seq (Rep 40 (Some 40) (\<lambda>c. c \<in> set hexChars)) Bnd))"

text \<open>Literals under the \<open>i\<close> flag: a character matches when it equals the pattern's
  character up to the case of an ASCII letter.\<close>

definition lowerOf :: "char \<Rightarrow> char" where
  "lowerOf c = (case map_of (zip upperChars lowerChars) c of None \<Rightarrow> c | Some l \<Rightarrow> l)"

definition lit_i :: "string \<Rightarrow> rx" where
  "lit_i s = foldr (\<lambda>c r. Seq (Cls (\<lambda>x. lowerOf x = lowerOf c)) r) s Eps"

definition ingOrEd :: rx where
  "ingOrEd = Alt (Alt (lit_i ''ing'') (lit_i ''ed'')) Eps"

text \<open>\<open>this.keywordPatterns\<close>, in the order of the source. The second pattern is written
  \<open>/\launch\b/gi\<close>: \<open>\l\<close> is the letter l, so this pattern has no leading \<open>\b\<close>.\<close>

definition keywordPatterns :: "rx list" where
  "keywordPatterns =
     [Seq Bnd (Seq (lit_i ''pump'') Bnd),
      Seq (lit_i ''launch'') Bnd,
      Seq Bnd (Seq (lit_i ''token'') Bnd),
      Seq Bnd (Seq (lit_i ''contract'') Bnd),
      Seq Bnd (Seq (lit_i ''mint'') (Seq ingOrEd Bnd)),
      Seq Bnd (Seq (lit_i ''deploy'') (Seq ingOrEd Bnd)),
      Seq Bnd (Seq (lit_i ''live'') Bnd),
      Seq Bnd (Seq (lit ''CA'') Bnd),
      Seq Bnd (Seq (lit ''SOL'') Bnd),
      Seq Bnd (Seq (lit ''BSC'') Bnd),
      Seq Bnd (Seq (lit_i ''airdrop'') Bnd),
      Seq Bnd (Seq (lit_i ''presale'') Bnd),
      Seq Bnd (Seq (lit_i ''liquidity'') Bnd),
      Seq Bnd (Seq (lit ''DEX'') Bnd)]"

definition alnum :: "char \<Rightarrow> bool" where
  "alnum c = (c \<in> set lowerChars \<or> c \<in> set upperChars \<or> c \<in> set digitChars)"

text \<open>\<open>urlRegex\<close> and \<open>tcoRegex\<close> of \<open>extractUrls\<close>.\<close>

definition urlRegex :: rx where
  "urlRegex =
     Seq (lit ''http'') (Seq (Alt (lit ''s'') Eps) (Seq (lit ''://'')
       (Seq (Alt (lit ''www.'') Eps)
         (Seq (Rep 1 (Some 256) (\<lambda>c. alnum c \<or> c \<in> set ''-@:%._+~#=''))
           (Seq (lit ''.'')
             (Seq (Rep 1 (Some 6) (\<lambda>c. alnum c \<or> c \<in> set ''()''))
               (Seq Bnd
                 (Rep 0 None (\<lambda>c. alnum c \<or> c \<in> set ''-()@:%_+.~#?&/=''))))))))) "

definition tcoRegex :: rx where
  "tcoRegex = Seq (lit ''https://t.co/'') (Rep 1 None alnum)"

text \<open>\<open>[...new Set(xs)]\<close>: the elements in the order of their first occurrence.\<close>

fun setOrder :: "'a list \<Rightarrow> 'a list \<Rightarrow> 'a list" where
  "setOrder seen [] = []"
| "setOrder seen (x # xs) =
     (if x \<in> set seen then setOrder seen xs else x # setOrder (x # seen) xs)"

text \<open>
  \<open>bs58.decode\<close> belongs to the package \<open>bs58\<close>, which is not part of the repository; the
  detector takes it as a parameter \<open>decode\<close>: \<open>None\<close> when it throws, else the bytes.
  \<open>bs58_decode\<close> is base58 decoding as that package does it: each leading \<open>1\<close> is a zero
  byte, the rest is a number in base 58 written out big-endian without leading zero bytes,
  and a character outside the alphabet throws.
\<close>

fun indexOf :: "'a \<Rightarrow> 'a list \<Rightarrow> nat option" where
  "indexOf x [] = None"
| "indexOf x (y # ys) = (if x = y then Some 0 else map_option Suc (indexOf x ys))"

fun base58Value :: "int \<Rightarrow> string \<Rightarrow> int option" where
  "base58Value acc [] = Some acc"
| "base58Value acc (c # cs) =
     (case indexOf c base58Alphabet of
        None \<Rightarrow> None
      | Some d \<Rightarrow> base58Value (acc * 58 + int d) cs)"

function bytesBE :: "int \<Rightarrow> 8 word list" where
  "bytesBE n = (if n \<le> 0 then [] else bytesBE (n div 256) @ [word_of_int (n mod 256)])"
  by pat_completeness auto
termination
  by (relation "measure nat") (auto simp: zdiv_mono2 intro: int_div_less_self)

declare bytesBE.simps [simp del]

definition bs58_decode :: "string \<Rightarrow> 8 word list option" where
  "bs58_decode s =
     (let zeroes = length (takeWhile (\<lambda>c. c = CHR ''1'') s)
      in case base58Value 0 (drop zeroes s) of
           None \<Rightarrow> None
         | Some n \<Rightarrow> Some (replicate zeroes 0 @ bytesBE n))"

definition isValidSolanaAddress :: "(string \<Rightarrow> 8 word list option) \<Rightarrow> string \<Rightarrow> bool" where
  "isValidSolanaAddress decode address =
     (case decode address of None \<Rightarrow> False | Some decoded \<Rightarrow> length decoded = 32)"

definition isValidBSCAddress :: "string \<Rightarrow> bool" where
  "isValidBSCAddress address = (if \<not> match_found bscExactRegex address then False else True)"

definition extractSolanaAddresses :: "(string \<Rightarrow> 8 word list option) \<Rightarrow> string \<Rightarrow> string list" where
  "extractSolanaAddresses decode text =
     filter (isValidSolanaAddress decode) (match_g solanaRegex text)"

definition extractBSCAddresses :: "string \<Rightarrow> string list" where
  "extractBSCAddresses text = filter isValidBSCAddress (match_g bscRegex text)"

definition containsCryptoKeywords :: "string \<Rightarrow> string list" where
  "containsCryptoKeywords text =
     setOrder [] (concat (map (\<lambda>pattern. match_g pattern text) keywordPatterns))"

definition extractUrls :: "string \<Rightarrow> string list" where
  "extractUrls text = match_g urlRegex text @ match_g tcoRegex text"

text \<open>The object \<open>analyzeTweet\<close> returns (the field \<open>keywords\<close> is \<open>keywordsFound\<close> here). \<open>timestamp\<close> is \<open>new Date().toISOString()\<close>: the
  reading of the clock during the call, here the parameter \<open>now\<close>.\<close>

record analysis =
  hasCryptoContent :: bool
  solanaAddresses :: "string list"
  bscAddresses :: "string list"
  keywordsFound :: "string list"
  urls :: "string list"
  timestamp :: string

definition analyzeTweet :: "(string \<Rightarrow> 8 word list option) \<Rightarrow> string \<Rightarrow> string \<Rightarrow> analysis" where
  "analyzeTweet decode now tweetText =
     (let solanaAddresses = extractSolanaAddresses decode tweetText;
          bscAddresses = extractBSCAddresses tweetText;
          kws = containsCryptoKeywords tweetText;
          urls = extractUrls tweetText
      in \<lparr> hasCryptoContent =
             (length solanaAddresses > 0 \<or> length bscAddresses > 0 \<or> length kws > 0),
           solanaAddresses = solanaAddresses,
           bscAddresses = bscAddresses,
           keywordsFound = kws,
           urls = urls,
           timestamp = now \<rparr>)"

subsection \<open>The detector as an object\<close>

text \<open>
  The definitions above read each method as a function of its arguments. The object has
  state that its methods touch: \<open>this.solanaRegex\<close>, \<open>this.bscRegex\<close> and the fourteen
  \<open>this.keywordPatterns\<close> are RegExp objects with the \<open>g\<close> flag, created once in the
  constructor and used by every call, each with its own \<open>lastIndex\<close>. (The patterns of
  \<open>extractUrls\<close> and \<open>isValidBSCAddress\<close> are literals evaluated anew in each call.) The
  state of a detector is the \<open>lastIndex\<close> of each of these objects, and a method takes the
  state and returns it with its result.
\<close>

record detector =
  solanaLastIndex :: nat
  bscLastIndex :: nat
  keywordLastIndex :: "nat \<Rightarrow> nat"

definition newDetector :: detector where
  "newDetector = \<lparr> solanaLastIndex = 0, bscLastIndex = 0, keywordLastIndex = (\<lambda>k. 0) \<rparr>"

definition extractSolanaAddresses_obj ::
  "(string \<Rightarrow> 8 word list option) \<Rightarrow> detector \<Rightarrow> string \<Rightarrow> string list \<times> detector" where
  "extractSolanaAddresses_obj decode d text =
     (case stringMatch solanaRegex (solanaLastIndex d) text of
        (matches, li) \<Rightarrow>
          (filter (isValidSolanaAddress decode) matches, d \<lparr> solanaLastIndex := li \<rparr>))"

definition extractBSCAddresses_obj :: "detector \<Rightarrow> string \<Rightarrow> string list \<times> detector" where
  "extractBSCAddresses_obj d text =
     (case stringMatch bscRegex (bscLastIndex d) text of
        (matches, li) \<Rightarrow> (filter isValidBSCAddress matches, d \<lparr> bscLastIndex := li \<rparr>))"

text \<open>The loop of \<open>containsCryptoKeywords\<close> over the patterns, each with its index in the
  array.\<close>

fun keywordLoop :: "(nat \<times> rx) list \<Rightarrow> detector \<Rightarrow> string \<Rightarrow> string list \<times> detector" where
  "keywordLoop [] d text = ([], d)"
| "keywordLoop ((k, pattern) # rest) d text =
     (case stringMatch pattern (keywordLastIndex d k) text of
        (matches, li) \<Rightarrow>
          (case keywordLoop rest (d \<lparr> keywordLastIndex := (keywordLastIndex d) (k := li) \<rparr>) text of
             (foundKeywords, d') \<Rightarrow> (matches @ foundKeywords, d')))"

definition containsCryptoKeywords_obj :: "detector \<Rightarrow> string \<Rightarrow> string list \<times> detector" where
  "containsCryptoKeywords_obj d text =
     (case keywordLoop (enumerate 0 keywordPatterns) d text of
        (foundKeywords, d') \<Rightarrow> (setOrder [] foundKeywords, d'))"

definition analyzeTweet_obj ::
  "(string \<Rightarrow> 8 word list option) \<Rightarrow> string \<Rightarrow> detector \<Rightarrow> string \<Rightarrow> analysis \<times> detector" where
  "analyzeTweet_obj decode now d tweetText =
     (case extractSolanaAddresses_obj decode d tweetText of
        (solanaFound, d1) \<Rightarrow>
          (case extractBSCAddresses_obj d1 tweetText of
             (bscFound, d2) \<Rightarrow>
               (case containsCryptoKeywords_obj d2 tweetText of
                  (kws, d3) \<Rightarrow>
                    (\<lparr> hasCryptoContent =
                         (length solanaFound > 0 \<or> length bscFound > 0 \<or> length kws > 0),
                       solanaAddresses = solanaFound,
                       bscAddresses = bscFound,
                       keywordsFound = kws,
                       urls = extractUrls tweetText,
                       timestamp = now \<rparr>, d3))))"

section \<open>The monitor (src/utils/twitterMonitor.js)\<close>

text \<open>A tweet as the scraper delivers it; \<open>text\<close>, \<open>username\<close> and \<open>timeParsed\<close> may be
  missing.\<close>

record tweet =
  tweetId :: string
  username :: "string option"
  tweetText :: "string option"
  timeParsed :: "string option"

record config =
  targetUsername :: string
  autoBuyEnabled :: bool
  solanaMnemonic :: "string option"
  bscMnemonic :: "string option"
  webhookUrl :: "string option"

text \<open>What the monitor takes from outside: the base58 decoder of the detector and the
  wall clock, \<open>clock n\<close> being the reading of the \<open>n\<close>-th look at it.\<close>

record env =
  decoder :: "string \<Rightarrow> 8 word list option"
  clock :: "nat \<Rightarrow> string"

text \<open>A string option used as a condition: \<open>undefined\<close>, \<open>null\<close> and the empty string are
  falsy.\<close>

definition truthy :: "string option \<Rightarrow> bool" where
  "truthy x = (case x of None \<Rightarrow> False | Some s \<Rightarrow> s \<noteq> [])"

definition orElse :: "string option \<Rightarrow> string \<Rightarrow> string" where
  "orElse x d = (case x of None \<Rightarrow> d | Some s \<Rightarrow> if s = [] then d else s)"

text \<open>The record \<open>processTweet\<close> builds for a tweet with crypto content.\<close>

record alert =
  alertId :: string
  alertUsername :: string
  alertText :: "string option"
  alertUrl :: string
  alertTimestamp :: string
  alertAnalysis :: analysis

text \<open>What the monitor does that can be seen from outside: running the detector on a tweet,
  displaying an alert, calling a buyer's \<open>buyToken\<close>, posting to the webhook, waiting one
  second.\<close>

datatype monitor_event =
    Analyzed string
  | Alert string
  | SolanaBuy address
  | BscBuy address
  | Webhook string
  | Pause

record monitor =
  isRunning :: bool
  processedTweets :: "string set"
  clockReads :: nat
  events :: "monitor_event list"

definition newMonitor :: monitor where
  "newMonitor = \<lparr> isRunning = False, processedTweets = {}, clockReads = 0, events = [] \<rparr>"

text \<open>The constructor creates a buyer only when auto-buy is enabled and the mnemonic is
  set.\<close>

definition solanaBuyer :: "config \<Rightarrow> bool" where
  "solanaBuyer cfg = (autoBuyEnabled cfg \<and> truthy (solanaMnemonic cfg))"

definition bscBuyer :: "config \<Rightarrow> bool" where
  "bscBuyer cfg = (autoBuyEnabled cfg \<and> truthy (bscMnemonic cfg))"

definition autoBuyTokens :: "config \<Rightarrow> monitor \<Rightarrow> alert \<Rightarrow> monitor" where
  "autoBuyTokens cfg m result =
     (let sol = solanaAddresses (alertAnalysis result);
          bsc = bscAddresses (alertAnalysis result);
          m1 = (if length sol > 0 \<and> solanaBuyer cfg
                then m \<lparr> events := events m @ map SolanaBuy sol \<rparr> else m)
      in if length bsc > 0 \<and> bscBuyer cfg
         then m1 \<lparr> events := events m1 @ map BscBuy bsc \<rparr> else m1)"

definition processTweet :: "config \<Rightarrow> env \<Rightarrow> monitor \<Rightarrow> tweet \<Rightarrow> alert option \<times> monitor" where
  "processTweet cfg e m tw =
     (if tweetId tw \<in> processedTweets m then (None, m)
      else
        (let m1 = m \<lparr> processedTweets := insert (tweetId tw) (processedTweets m) \<rparr>;
             an = analyzeTweet (decoder e) (clock e (clockReads m1)) (orElse (tweetText tw) []);
             m2 = m1 \<lparr> clockReads := Suc (clockReads m1),
                       events := events m1 @ [Analyzed (tweetId tw)] \<rparr>
         in if hasCryptoContent an then
              (let m3 = (case timeParsed tw of
                           Some t \<Rightarrow> m2
                         | None \<Rightarrow> m2 \<lparr> clockReads := Suc (clockReads m2) \<rparr>);
                   result = \<lparr> alertId = tweetId tw,
                              alertUsername = orElse (username tw) (targetUsername cfg),
                              alertText = tweetText tw,
                              alertUrl = ''https://twitter.com/'' @
                                orElse (username tw) (targetUsername cfg) @ ''/status/'' @ tweetId tw,
                              alertTimestamp =
                                (case timeParsed tw of
                                   Some t \<Rightarrow> t
                                 | None \<Rightarrow> clock e (clockReads m2)),
                              alertAnalysis = an \<rparr>;
                   m4 = m3 \<lparr> events := events m3 @ [Alert (tweetId tw)] \<rparr>
               in (Some result, if autoBuyEnabled cfg then autoBuyTokens cfg m4 result else m4))
            else (None, m2)))"

text \<open>The body of the loop of \<open>checkForNewTweets\<close>, and the loop over
  \<open>tweets.reverse()\<close>. \<open>tweets\<close> is what \<open>fetchLatestTweets\<close> returned: at most ten tweets,
  none when the fetch failed.\<close>

definition checkOne :: "config \<Rightarrow> env \<Rightarrow> monitor \<Rightarrow> tweet \<Rightarrow> monitor" where
  "checkOne cfg e m tw =
     (if tweetId tw \<notin> processedTweets m then
        (case processTweet cfg e m tw of
           (Some result, m') \<Rightarrow>
             m' \<lparr> events := events m' @
                    (if truthy (webhookUrl cfg) then [Webhook (alertId result)] else []) @ [Pause] \<rparr>
         | (None, m') \<Rightarrow> m')
      else m)"

definition checkForNewTweets :: "config \<Rightarrow> env \<Rightarrow> monitor \<Rightarrow> tweet list \<Rightarrow> monitor" where
  "checkForNewTweets cfg e m tweets =
     (if length tweets = 0 then m else foldl (checkOne cfg e) m (rev tweets))"

text \<open>\<open>startMonitoring\<close> (with its immediate first check), the interval callback and
  \<open>stopMonitoring\<close>; an operation of the monitor is one of these or a direct
  \<open>processTweet\<close>.\<close>

definition startMonitoring :: "config \<Rightarrow> env \<Rightarrow> monitor \<Rightarrow> tweet list \<Rightarrow> monitor" where
  "startMonitoring cfg e m tweets =
     (if isRunning m then m else checkForNewTweets cfg e (m \<lparr> isRunning := True \<rparr>) tweets)"

definition intervalCallback :: "config \<Rightarrow> env \<Rightarrow> monitor \<Rightarrow> tweet list \<Rightarrow> monitor" where
  "intervalCallback cfg e m tweets =
     (if isRunning m then checkForNewTweets cfg e m tweets else m)"

definition stopMonitoring :: "monitor \<Rightarrow> monitor" where
  "stopMonitoring m = m \<lparr> isRunning := False \<rparr>"

datatype monitor_op = Start "tweet list" | Tick "tweet list" | Stop | Process tweet

fun monitor_step :: "config \<Rightarrow> env \<Rightarrow> monitor \<Rightarrow> monitor_op \<Rightarrow> monitor" where
  "monitor_step cfg e m (Start tweets) = startMonitoring cfg e m tweets"
| "monitor_step cfg e m (Tick tweets) = intervalCallback cfg e m tweets"
| "monitor_step cfg e m Stop = stopMonitoring m"
| "monitor_step cfg e m (Process tw) = snd (processTweet cfg e m tw)"

definition analyzedIds :: "monitor_event list \<Rightarrow> string list" where
  "analyzedIds evs = concat (map (\<lambda>ev. case ev of Analyzed i \<Rightarrow> [i] | _ \<Rightarrow> []) evs)"

definition alertIds :: "monitor_event list \<Rightarrow> string list" where
  "alertIds evs = concat (map (\<lambda>ev. case ev of Alert i \<Rightarrow> [i] | _ \<Rightarrow> []) evs)"

subsection \<open>The first revision of the monitor\<close>

text \<open>
  The repository holds an earlier \<open>TwitterMonitor\<close> as well (the first class of
  src/unnamed/part_002). Its \<open>processTweet\<close> differs from the later one in the user name of
  the alert, which has no fallback to the target account; its \<open>checkForNewTweets\<close> loops over
  \<open>tweets\<close> as fetched and does not wait between tweets.
\<close>

definition processTweet_first ::
  "config \<Rightarrow> env \<Rightarrow> monitor \<Rightarrow> tweet \<Rightarrow> alert option \<times> monitor" where
  "processTweet_first cfg e m tw =
     (if tweetId tw \<in> processedTweets m then (None, m)
      else
        (let m1 = m \<lparr> processedTweets := insert (tweetId tw) (processedTweets m) \<rparr>;
             an = analyzeTweet (decoder e) (clock e (clockReads m1)) (orElse (tweetText tw) []);
             m2 = m1 \<lparr> clockReads := Suc (clockReads m1),
                       events := events m1 @ [Analyzed (tweetId tw)] \<rparr>
         in if hasCryptoContent an then
              (let m3 = (case timeParsed tw of
                           Some t \<Rightarrow> m2
                         | None \<Rightarrow> m2 \<lparr> clockReads := Suc (clockReads m2) \<rparr>);
                   name = (case username tw of None \<Rightarrow> ''undefined'' | Some u \<Rightarrow> u);
                   result = \<lparr> alertId = tweetId tw,
                              alertUsername = name,
                              alertText = tweetText tw,
                              alertUrl = ''https://twitter.com/'' @ name @ ''/status/'' @ tweetId tw,
                              alertTimestamp =
                                (case timeParsed tw of
                                   Some t \<Rightarrow> t
                                 | None \<Rightarrow> clock e (clockReads m2)),
                              alertAnalysis = an \<rparr>;
                   m4 = m3 \<lparr> events := events m3 @ [Alert (tweetId tw)] \<rparr>
               in (Some result, if autoBuyEnabled cfg then autoBuyTokens cfg m4 result else m4))
            else (None, m2)))"

definition checkOne_first :: "config \<Rightarrow> env \<Rightarrow> monitor \<Rightarrow> tweet \<Rightarrow> monitor" where
  "checkOne_first cfg e m tw =
     (if tweetId tw \<notin> processedTweets m then
        (case processTweet_first cfg e m tw of
           (Some result, m') \<Rightarrow>
             m' \<lparr> events := events m' @
                    (if truthy (webhookUrl cfg) then [Webhook (alertId result)] else []) \<rparr>
         | (None, m') \<Rightarrow> m')
      else m)"

definition checkForNewTweets_first :: "config \<Rightarrow> env \<Rightarrow> monitor \<Rightarrow> tweet list \<Rightarrow> monitor" where
  "checkForNewTweets_first cfg e m tweets =
     (if length tweets = 0 then m else foldl (checkOne_first cfg e) m tweets)"

section \<open>The profit tracker (ProfitTracker)\<close>

text \<open>A tracked purchase. Numbers are JavaScript numbers, read as the rationals they
  denote: rounding, infinities and NaN are outside this model. \<open>tokensReceived\<close> is the
  number the stored value parses to, \<open>None\<close> when the buyer's result had none.\<close>

record purchase =
  purchaseId :: nat
  chain :: string
  tokenAddress :: address
  platform :: string
  amount :: rat
  tokensReceived :: "rat option"
  purchaseTime :: string
  currentValue :: rat
  profitLoss :: rat
  profitPercentage :: rat

text \<open>The Jupiter quote API: the fetch throws, answers with a status that is not ok, or
  answers with \<open>outAmount\<close>.\<close>

record price_world =
  jupiterQuote :: "address \<Rightarrow> string + rat option"

definition baseAmount :: rat where
  "baseAmount = 100000000"

text \<open>\<open>getSolanaTokenPrice\<close>: \<open>None\<close> stands for \<open>null\<close>.\<close>

definition getSolanaTokenPrice :: "price_world \<Rightarrow> address \<Rightarrow> rat option" where
  "getSolanaTokenPrice pw addr =
     (case jupiterQuote pw addr of
        Inl _ \<Rightarrow> None
      | Inr None \<Rightarrow> None
      | Inr (Some outAmount) \<Rightarrow> Some ((baseAmount / outAmount) * (baseAmount / 100000000)))"

text \<open>\<open>getBSCTokenPrice\<close> returns the constant 0.001.\<close>

definition getBSCTokenPrice :: "address \<Rightarrow> rat option" where
  "getBSCTokenPrice addr = Some (1 / 1000)"

definition currentPriceOf :: "price_world \<Rightarrow> purchase \<Rightarrow> rat option" where
  "currentPriceOf pw p =
     (if chain p = ''solana'' then getSolanaTokenPrice pw (tokenAddress p)
      else if chain p = ''bsc'' then getBSCTokenPrice (tokenAddress p)
      else None)"

text \<open>\<open>parseFloat(purchase.tokensReceived || 0)\<close>\<close>

definition quantityReceived :: "purchase \<Rightarrow> rat" where
  "quantityReceived p = (case tokensReceived p of None \<Rightarrow> 0 | Some q \<Rightarrow> q)"

text \<open>One round of the loop of \<open>updateProfitLoss\<close>; \<open>if (currentPrice)\<close> is false for
  \<open>null\<close> and for 0.\<close>

definition revalue :: "price_world \<Rightarrow> purchase \<Rightarrow> purchase" where
  "revalue pw p =
     (case currentPriceOf pw p of
        None \<Rightarrow> p
      | Some currentPrice \<Rightarrow>
          if currentPrice = 0 then p
          else
            (let value = quantityReceived p * currentPrice
             in p \<lparr> currentValue := value,
                   profitLoss := value - amount p,
                   profitPercentage := ((value - amount p) / amount p) * 100 \<rparr>))"

definition updateProfitLoss :: "price_world \<Rightarrow> purchase list \<Rightarrow> purchase list" where
  "updateProfitLoss pw purchasedTokens =
     (if length purchasedTokens = 0 then purchasedTokens else map (revalue pw) purchasedTokens)"

section \<open>Notions used to state the properties\<close>

text \<open>The identifiers a loop over \<open>ids\<close> lets through a ledger that starts as \<open>P\<close>: each
  identifier not yet in the ledger, once, in the order of the list.\<close>

fun fresh :: "string set \<Rightarrow> string list \<Rightarrow> string list" where
  "fresh P [] = []"
| "fresh P (i # is) = (if i \<in> P then fresh P is else i # fresh (insert i P) is)"

text \<open>The tweets a ledger that starts as \<open>P\<close> lets through: for each identifier not in
  \<open>P\<close>, the first tweet of the list that carries it.\<close>

fun firsts :: "string set \<Rightarrow> tweet list \<Rightarrow> tweet list" where
  "firsts P [] = []"
| "firsts P (tw # tws) =
     (if tweetId tw \<in> P then firsts P tws else tw # firsts (insert (tweetId tw) P) tws)"

text \<open>
  The tweets a run of operations hands to the ledger, in the order in which they reach it,
  for a monitor that is running or not at its start: a start on a stopped monitor and a tick
  on a running one hand over the fetched tweets from the last to the first; a start on a
  running monitor returns at once and a tick finds a stopped monitor idle.
\<close>

fun delivered :: "bool \<Rightarrow> monitor_op list \<Rightarrow> tweet list" where
  "delivered running [] = []"
| "delivered running (Start tweets # ops) =
     (if running then [] else rev tweets) @ delivered True ops"
| "delivered running (Tick tweets # ops) =
     (if running then rev tweets else []) @ delivered running ops"
| "delivered running (Stop # ops) = delivered False ops"
| "delivered running (Process tw # ops) = tw # delivered running ops"

text \<open>Whether the detector finds crypto content in the text of a tweet. The clock reading
  handed to \<open>analyzeTweet\<close> reaches the timestamp only, so any reading serves.\<close>

definition hasSignal :: "env \<Rightarrow> tweet \<Rightarrow> bool" where
  "hasSignal e tw = hasCryptoContent (analyzeTweet (decoder e) [] (orElse (tweetText tw) []))"

section \<open>Example inputs\<close>

subsection \<open>Chains\<close>

definition tokenA :: address where
  "tokenA = ''0x742d35Cc6634C0532925a3b844Bc8e7E5313A7bE''"

text \<open>A BSC wallet holding 3.7 BNB; the token contract answers; Four.meme says the token is
  not live; PancakeSwap quotes; transactions are sent and the receipt reports a revert.\<close>

definition bscChain :: bsc_world where
  "bscChain =
     \<lparr> bscBalance = Inr 3700000000000000000,
       erc20Info = (\<lambda>a. Inr (''Token'', ''TKN'', 18)),
       isTokenLive = (\<lambda>a. Inr False),
       getTokenPrice = (\<lambda>a. Inr 1),
       getBuyQuote = (\<lambda>a. Inr 1000),
       getAmountsIn = (\<lambda>a. Inr [1, 2]),
       estimateGas = (\<lambda>v a n. Inr 21000),
       sendTransaction = (\<lambda>v a n g. Inr ''0xabc''),
       receiptSuccess = (\<lambda>h. Inr False),
       balanceOf = (\<lambda>a. Inr 5) \<rparr>"

text \<open>A Solana wallet holding 3.7 SOL; Pump.fun knows the coin; its transaction fails.\<close>

definition solChain :: sol_world where
  "solChain =
     \<lparr> solBalance = Inr 3700000000,
       pumpFunApi = (\<lambda>a. Inr (Some \<lparr> coinName = ''Coin'', coinSymbol = ''CN'', coinPriceSOL = 1 \<rparr>)),
       raydiumPairs = Inr (Some []),
       validPublicKey = (\<lambda>a. True),
       dlmmPositionsByUser = Inr (),
       dlmmFindLbPair = (\<lambda>a. Inr None),
       dlmmCreate = (\<lambda>a. Inr ()),
       ammPoolList = Inr [],
       pumpFunTx = (\<lambda>a n. Inl ''Transaction simulation failed''),
       raydiumTx = (\<lambda>a n. Inl ''Transaction simulation failed''),
       meteoraTx = (\<lambda>t p a n. Inl ''Transaction simulation failed'') \<rparr>"

text \<open>The same BSC chain with the token live on Four.meme and a gas estimate that
  throws.\<close>

definition bscChainRevert :: bsc_world where
  "bscChainRevert =
     bscChain \<lparr> isTokenLive := (\<lambda>a. Inr True), estimateGas := (\<lambda>v a n. Inl ''execution reverted'') \<rparr>"

text \<open>Variants: a token contract that cannot be read; wallets holding 0.9.\<close>

definition bscChainNoContract :: bsc_world where
  "bscChainNoContract = bscChain \<lparr> erc20Info := (\<lambda>a. Inl ''execution reverted'') \<rparr>"

definition bscChainPoor :: bsc_world where
  "bscChainPoor = bscChain \<lparr> bscBalance := Inr 900000000000000000 \<rparr>"

definition solChainPoor :: sol_world where
  "solChainPoor = solChain \<lparr> solBalance := Inr 900000000 \<rparr>"

text \<open>A wallet ten wei short of 1 BNB, the token live on Four.meme.\<close>

definition bscChainAlmostOne :: bsc_world where
  "bscChainAlmostOne = bscChainRevert \<lparr> bscBalance := Inr 999999999999999990 \<rparr>"

subsection \<open>Tweets\<close>

definition tweetTwoCandidates :: string where
  "tweetTwoCandidates =
     ''22222222222222222222222222222222 So11111111111111111111111111111111111111112 ok''"

definition tweetLinkOnly :: string where
  "tweetLinkOnly = ''see https://t.co/abc123''"

subsection \<open>Monitor inputs\<close>

definition demoConfig :: config where
  "demoConfig =
     \<lparr> targetUsername = ''target'', autoBuyEnabled = False, solanaMnemonic = None,
       bscMnemonic = None, webhookUrl = None \<rparr>"

definition demoEnv :: env where
  "demoEnv = \<lparr> decoder = bs58_decode, clock = (\<lambda>n. ''2024-01-01T00:00:00.000Z'') \<rparr>"

definition post :: "string \<Rightarrow> string \<Rightarrow> tweet" where
  "post i body =
     \<lparr> tweetId = i, username = Some ''target'', tweetText = Some body, timeParsed = None \<rparr>"

definition P1 :: tweet where "P1 = post ''1'' ''gm''"
definition P2 :: tweet where "P2 = post ''2'' ''new token soon''"
definition P3 :: tweet where "P3 = post ''3'' ''token is live''"

subsection \<open>Positions\<close>

definition positionStale :: purchase where
  "positionStale =
     \<lparr> purchaseId = 1, chain = ''solana'', tokenAddress = ''MintWithoutQuote'',
       platform = ''Pump.fun'', amount = 3, tokensReceived = None, purchaseTime = ''t'',
       currentValue = 7, profitLoss = 4, profitPercentage = 400 / 3 \<rparr>"

definition positionQuoted :: purchase where
  "positionQuoted =
     \<lparr> purchaseId = 2, chain = ''solana'', tokenAddress = ''MintWithQuote'',
       platform = ''Meteora DLMM'', amount = 1, tokensReceived = Some 1000, purchaseTime = ''t'',
       currentValue = 0, profitLoss = 0, profitPercentage = 0 \<rparr>"

text \<open>A price source that fails for the first position and quotes 50000000000 units for 0.1
  SOL, a price of 0.002, for the second.\<close>

definition demoPrices :: price_world where
  "demoPrices =
     \<lparr> jupiterQuote = (\<lambda>a. if a = ''MintWithQuote'' then Inr (Some 50000000000)
                             else Inl ''fetch failed'') \<rparr>"

section \<open>Facts about the matcher\<close>

lemma run_sound:
  "q' \<in> set (run p n q) \<Longrightarrow>
   \<exists>k. k \<le> n \<and> k \<le> length (snd q) \<and> snd q' = drop k (snd q) \<and>
       (\<forall>c \<in> set (take k (snd q)). p c) \<and>
       fst q' = (if k = 0 then fst q else Some (snd q ! (k - 1)))"
proof (induction p n q rule: run.induct)
  case (1 p q)
  then show ?case by simp
next
  case (2 p n prev)
  then show ?case by simp
next
  case (3 p n prev c cs)
  show ?case
  proof (cases "p c \<and> q' \<in> set (run p n (Some c, cs))")
    case True
    then obtain k where k: "k \<le> n" "k \<le> length cs" "snd q' = drop k cs"
        "\<forall>x \<in> set (take k cs). p x"
        "fst q' = (if k = 0 then Some c else Some (cs ! (k - 1)))"
      using 3 by auto
    show ?thesis
      apply (rule exI [of _ "Suc k"])
      using k True by (auto simp: nth_Cons')
  next
    case False
    then have "q' = (prev, c # cs)" using "3.prems" by (auto split: if_splits)
    then show ?thesis by (intro exI [of _ 0]) simp
  qed
qed

lemma run_complete:
  "k \<le> n \<Longrightarrow> k \<le> length s \<Longrightarrow> \<forall>c \<in> set (take k s). p c \<Longrightarrow>
   (if k = 0 then prev else Some (s ! (k - 1)), drop k s) \<in> set (run p n (prev, s))"
proof (induction p n "(prev, s)" arbitrary: k prev s rule: run.induct)
  case (1 p)
  then show ?case by simp
next
  case (2 p n prev)
  then show ?case by simp
next
  case (3 p n prev c cs)
  show ?case
  proof (cases k)
    case 0
    then show ?thesis by simp
  next
    case (Suc j)
    then have pc: "p c" and j: "j \<le> n" "j \<le> length cs" "\<forall>x \<in> set (take j cs). p x"
      using "3.prems" by auto
    from "3.hyps" [OF pc j] show ?thesis using Suc pc by (auto simp: nth_Cons')
  qed
qed

lemma scan_Nil:
  "scan r (prev, []) = (case step r (prev, []) of [] \<Rightarrow> [] | _ # _ \<Rightarrow> [[]])"
  by (subst scan.simps) (simp split: list.splits)

lemma scan_Cons:
  "scan r (prev, c # cs) =
     (case step r (prev, c # cs) of
        [] \<Rightarrow> scan r (Some c, cs)
      | (prev', s') # _ \<Rightarrow>
          if length s' < Suc (length cs)
          then take (Suc (length cs) - length s') (c # cs) # scan r (prev', s')
          else [] # scan r (Some c, cs))"
  by (subst scan.simps) (simp split: list.splits)

lemma scan_Bol_later: "scan (Seq Bol r) (Some c, s) = []"
  by (induction s arbitrary: c) (simp_all add: scan_Nil scan_Cons)

lemma match_found_Bol: "match_found (Seq Bol r) s = (step r (None, s) \<noteq> [])"
  by (cases s)
    (auto simp: match_found_def match_g_def scan_Nil scan_Cons scan_Bol_later split: list.splits)

subsection \<open>The matcher on indices\<close>

lemma posAt_0: "posAt text 0 = (None, text)"
  by (simp add: posAt_def)

lemma posAt_Suc:
  "i < length text \<Longrightarrow> posAt text i = (p, s) \<Longrightarrow>
   \<exists>cs. s = text ! i # cs \<and> posAt text (Suc i) = (Some (text ! i), cs)"
  by (auto simp: posAt_def Cons_nth_drop_Suc)

lemma posAt_length: "i \<le> length text \<Longrightarrow> length (snd (posAt text i)) = length text - i"
  by (simp add: posAt_def)

lemma run_pos:
  assumes "q' \<in> set (run p n (posAt text i))" "i \<le> length text"
  shows "\<exists>j. i \<le> j \<and> j \<le> length text \<and> q' = posAt text j"
proof -
  from run_sound [OF assms(1)] obtain k where
    k: "k \<le> length (snd (posAt text i))" "snd q' = drop k (snd (posAt text i))"
       "fst q' = (if k = 0 then fst (posAt text i) else Some (snd (posAt text i) ! (k - 1)))"
    by blast
  have "q' = posAt text (i + k)"
    using k assms(2) by (cases q') (auto simp: posAt_def add.commute)
  with k(1) assms(2) show ?thesis by (intro exI [of _ "i + k"]) (auto simp: posAt_def)
qed

text \<open>A match that starts at an index of the text ends at an index of the text, not
  before its start.\<close>

lemma step_pos:
  "q' \<in> set (step r (posAt text i)) \<Longrightarrow> i \<le> length text \<Longrightarrow>
   \<exists>j. i \<le> j \<and> j \<le> length text \<and> q' = posAt text j"
proof (induction r arbitrary: i q')
  case (Cls p)
  obtain pv s where q: "posAt text i = (pv, s)" by (cases "posAt text i")
  with Cls obtain c cs where s: "s = c # cs" "p c" "q' = (Some c, cs)"
    by (cases s) (auto split: if_splits)
  from q s have lt: "i < length text" by (cases "i < length text") (auto simp: posAt_def)
  from posAt_Suc [OF lt q] s have "q' = posAt text (Suc i)" by auto
  with lt show ?case by (intro exI [of _ "Suc i"]) simp
next
  case Bnd
  then show ?case by (auto split: if_splits)
next
  case Bol
  then show ?case by (auto split: if_splits)
next
  case Eol
  then show ?case by (auto split: if_splits)
next
  case Eps
  then show ?case by auto
next
  case (Seq a b)
  from Seq.prems obtain q1 where q1: "q1 \<in> set (step a (posAt text i))" "q' \<in> set (step b q1)"
    by auto
  from Seq.IH(1) [OF q1(1) Seq.prems(2)] obtain j where
    j: "i \<le> j" "j \<le> length text" "q1 = posAt text j" by blast
  from Seq.IH(2) [of q' j] q1(2) j obtain k where "j \<le> k" "k \<le> length text" "q' = posAt text k"
    by blast
  with j show ?case by (intro exI [of _ k]) simp
next
  case (Alt a b)
  from Alt.prems(1) have "q' \<in> set (step a (posAt text i)) \<or> q' \<in> set (step b (posAt text i))"
    by simp
  then show ?case
    using Alt.IH(1) [OF _ Alt.prems(2)] Alt.IH(2) [OF _ Alt.prems(2)] by blast
next
  case (Rep m n p)
  then show ?case by (auto simp: Let_def dest: run_pos)
qed

lemma findFrom_hit: "step r (prev, s) = q # qs \<Longrightarrow> findFrom r (prev, s) = Some ((prev, s), q)"
  by (cases s) simp_all

lemma exec_skip:
  assumes "i < length text" "step r (posAt text i) = []"
  shows "regExpExec r i text = regExpExec r (Suc i) text"
proof -
  obtain pv s where q: "posAt text i = (pv, s)" by (cases "posAt text i")
  from posAt_Suc [OF assms(1) q] obtain cs where
    cs: "s = text ! i # cs" "posAt text (Suc i) = (Some (text ! i), cs)" by blast
  with assms q show ?thesis by (simp add: regExpExec_def)
qed

lemma exec_hit:
  assumes "i \<le> j" "j \<le> length text" "step r (posAt text i) = posAt text j # qs"
  shows "regExpExec r i text = (Some (take (j - i) (drop i text)), j)"
proof -
  obtain pv s where q: "posAt text i = (pv, s)" by (cases "posAt text i")
  then have s: "s = drop i text" by (simp add: posAt_def)
  from assms q have "findFrom r (posAt text i) = Some ((pv, s), posAt text j)"
    by (simp add: findFrom_hit)
  with assms s show ?thesis
    by (simp add: regExpExec_def posAt_length)
qed

lemma exec_end:
  "step r (posAt text (length text)) = [] \<Longrightarrow> regExpExec r (length text) text = (None, 0)"
  by (cases "posAt text (length text)") (auto simp: regExpExec_def posAt_def)

lemma exec_beyond: "length text < i \<Longrightarrow> regExpExec r i text = (None, 0)"
  by (simp add: regExpExec_def)

text \<open>After a successful \<open>exec\<close> the loop goes on from a larger index.\<close>

lemma exec_progress:
  "regExpExec r i text = (Some m, li) \<Longrightarrow> i < (if m = [] then li + 1 else li)"
proof (induction "length text - i" arbitrary: i rule: less_induct)
  case less
  have le: "i \<le> length text"
    using less.prems by (cases "i \<le> length text") (simp_all add: exec_beyond)
  show ?case
  proof (cases "step r (posAt text i)")
    case Nil
    show ?thesis
    proof (cases "i < length text")
      case True
      with Nil less.prems have ex: "regExpExec r (Suc i) text = (Some m, li)"
        by (simp add: exec_skip)
      from True have "length text - Suc i < length text - i" by simp
      from less.hyps [OF this ex] show ?thesis by (auto split: if_splits)
    next
      case False
      with le have "i = length text" by simp
      with Nil less.prems show ?thesis by (simp add: exec_end)
    qed
  next
    case (Cons q' qs)
    then have "q' \<in> set (step r (posAt text i))" by simp
    from step_pos [OF this le] obtain j where j: "i \<le> j" "j \<le> length text" "q' = posAt text j"
      by blast
    from exec_hit [OF j(1,2), of r qs] Cons j less.prems
    have "m = take (j - i) (drop i text)" "li = j" by simp_all
    with j show ?thesis by (cases "i = j") auto
  qed
qed

lemma matchLoop_unfold:
  "matchLoop r i text =
     (case regExpExec r i text of
        (None, li) \<Rightarrow> ([], li)
      | (Some m, li) \<Rightarrow>
          (case matchLoop r (if m = [] then li + 1 else li) text of
             (ms, final) \<Rightarrow> (m # ms, final)))"
proof (cases "regExpExec r i text")
  case (Pair mo li)
  show ?thesis
  proof (cases mo)
    case None
    with Pair show ?thesis by (subst matchLoop.simps) simp
  next
    case (Some m)
    with Pair exec_progress [of r i "text" m li] show ?thesis
      by (subst matchLoop.simps) (simp add: Let_def)
  qed
qed

text \<open>
  The loop started at an index returns what the scan returns from the position at that
  index, and leaves \<open>lastIndex\<close> at 0.
\<close>

lemma matchLoop_scan:
  "i \<le> length text \<Longrightarrow> matchLoop r i text = (scan r (posAt text i), 0)"
proof (induction "length text - i" arbitrary: i rule: less_induct)
  case less
  obtain pv s where q: "posAt text i = (pv, s)" by (cases "posAt text i")
  show ?case
  proof (cases "step r (posAt text i)")
    case Nil
    show ?thesis
    proof (cases "i < length text")
      case True
      from posAt_Suc [OF True q] obtain cs where
        cs: "s = text ! i # cs" "posAt text (Suc i) = (Some (text ! i), cs)" by blast
      have "matchLoop r i text = matchLoop r (Suc i) text"
        by (subst matchLoop_unfold, subst (2) matchLoop_unfold) (simp add: exec_skip [OF True Nil])
      also have "\<dots> = (scan r (posAt text (Suc i)), 0)"
        using True by (intro less.hyps) simp_all
      also have "scan r (posAt text (Suc i)) = scan r (posAt text i)"
        using Nil q cs by (simp add: scan_Cons)
      finally show ?thesis .
    next
      case False
      with less.prems have i: "i = length text" by simp
      with q have "s = []" by (simp add: posAt_def)
      with Nil q i show ?thesis
        by (subst matchLoop_unfold) (simp add: exec_end scan_Nil)
    qed
  next
    case (Cons q' qs)
    then have "q' \<in> set (step r (posAt text i))" by simp
    from step_pos [OF this less.prems] obtain j where
      j: "i \<le> j" "j \<le> length text" "q' = posAt text j" by blast
    obtain pv' s' where q': "posAt text j = (pv', s')" by (cases "posAt text j")
    have ex: "regExpExec r i text = (Some (take (j - i) (drop i text)), j)"
      using exec_hit [OF j(1,2), of r qs] Cons j by simp
    have ls: "length s = length text - i" "length s' = length text - j" "s = drop i text"
      using q q' less.prems j posAt_length [of i "text"] posAt_length [of j "text"]
      by (simp_all add: posAt_def)
    show ?thesis
    proof (cases "i < j")
      case True
      then have ne: "take (j - i) (drop i text) \<noteq> []" using j by auto
      have "matchLoop r j text = (scan r (posAt text j), 0)"
        using True j by (intro less.hyps) simp_all
      with ex ne have "matchLoop r i text = (take (j - i) (drop i text) # scan r (posAt text j), 0)"
        by (subst matchLoop_unfold) simp
      moreover have lt: "length s' < length s" using ls True j by arith
      have "length s - length s' = j - i" using ls True j by arith
      then have tk: "take (length s - length s') s = take (j - i) (drop i text)"
        using ls by simp
      have "scan r (pv, s) = take (j - i) (drop i text) # scan r (posAt text j)"
        using Cons q q' j(3) lt tk by (subst scan.simps) simp
      ultimately show ?thesis using q by simp
    next
      case False
      with j have ji: "j = i" by simp
      show ?thesis
      proof (cases "i < length text")
        case True
        from posAt_Suc [OF True q] obtain cs where
          cs: "s = text ! i # cs" "posAt text (Suc i) = (Some (text ! i), cs)" by blast
        have "matchLoop r (Suc i) text = (scan r (posAt text (Suc i)), 0)"
          using True by (intro less.hyps) simp_all
        with ex ji have "matchLoop r i text = ([] # scan r (posAt text (Suc i)), 0)"
          by (subst matchLoop_unfold) simp
        moreover have "step r (pv, text ! i # cs) = (pv, text ! i # cs) # qs"
          using Cons q q' j(3) ji cs by simp
        then have "scan r (pv, text ! i # cs) = [] # scan r (Some (text ! i), cs)"
          by (simp add: scan_Cons)
        ultimately show ?thesis using q cs by simp
      next
        case False
        with less.prems have i: "i = length text" by simp
        with q have "s = []" by (simp add: posAt_def)
        moreover have "matchLoop r (Suc (length text)) text = ([], 0)"
          by (subst matchLoop_unfold) (simp add: exec_beyond)
        ultimately show ?thesis
          using ex ji i Cons q by (subst matchLoop_unfold) (simp add: scan_Nil)
      qed
    qed
  qed
qed

text \<open>So \<open>text.match\<close> with a global RegExp object returns the matches of the scan whatever
  the \<open>lastIndex\<close> of the object was, and leaves it at 0.\<close>

lemma stringMatch_match_g: "stringMatch r lastIndex text = (match_g r text, 0)"
  by (simp add: stringMatch_def match_g_def matchLoop_scan posAt_0)

lemma step_lit_0x:
  "step (Seq (lit ''0x'') r) (prev, s) =
     (case s of
        c1 # c2 # rest \<Rightarrow>
          if c1 = CHR ''0'' \<and> c2 = CHR ''x'' then step r (Some c2, rest) else []
      | _ \<Rightarrow> [])"
  by (auto simp: lit_def split: list.splits)

lemma step_rep_eol:
  "(step (Seq (Rep n (Some n) p) Eol) (prev, s) \<noteq> []) = (length s = n \<and> (\<forall>c \<in> set s. p c))"
proof
  assume "step (Seq (Rep n (Some n) p) Eol) (prev, s) \<noteq> []"
  then obtain q' where q': "q' \<in> set (run p n (prev, s))"
      "n + length (snd q') \<le> length s" "snd q' = []"
    by (auto split: if_splits)
  from run_sound [OF q'(1)] obtain k where k: "k \<le> n" "k \<le> length s"
      "snd q' = drop k s" "\<forall>c \<in> set (take k s). p c"
    by auto
  with q' show "length s = n \<and> (\<forall>c \<in> set s. p c)" by auto
next
  assume a: "length s = n \<and> (\<forall>c \<in> set s. p c)"
  then have "(if n = 0 then prev else Some (s ! (n - 1)), drop n s) \<in> set (run p n (prev, s))"
    by (intro run_complete) auto
  with a show "step (Seq (Rep n (Some n) p) Eol) (prev, s) \<noteq> []"
    by (auto simp: filter_empty_conv
        intro!: bexI [of _ "(if n = 0 then prev else Some (s ! (n - 1)), [])"])
qed

lemma step_0x_rep_eol:
  "(step (Seq (lit ''0x'') (Seq (Rep n (Some n) p) Eol)) (prev, s) \<noteq> []) =
     (\<exists>rest. s = CHR ''0'' # CHR ''x'' # rest \<and> length rest = n \<and> (\<forall>c \<in> set rest. p c))"
  apply (simp add: step_lit_0x step_rep_eol del: step.simps split: list.splits)
  apply blast
  done

lemma bscExact_iff: "match_found bscExactRegex s = isBscFormat s"
proof -
  have "isBscFormat s =
      (\<exists>rest. s = CHR ''0'' # CHR ''x'' # rest \<and> length rest = 40 \<and>
         (\<forall>c \<in> set rest. c \<in> set hexChars))"
  proof (cases s)
    case Nil
    then show ?thesis by (simp add: isBscFormat_def)
  next
    case (Cons c1 s1)
    then show ?thesis by (cases s1) (auto simp add: isBscFormat_def numeral_2_eq_2)
  qed
  then show ?thesis
    by (simp only: bscExactRegex_def match_found_Bol step_0x_rep_eol)
qed

lemma tokenA_format: "isBscFormat tokenA"
  by (simp add: isBscFormat_def tokenA_def hexChars_def)

lemma bsc_buyOn_amount: "bsc_buyOn v w a n = Bought p m h t \<Longrightarrow> m = n"
  by (auto simp: bsc_buyOn_def split: option.splits sum.splits if_splits)

lemma sol_buyOn_amount:
  "buyOnPumpFun w a n = Bought p m h t \<Longrightarrow> m = n"
  "buyOnRaydium w a n = Bought p m h t \<Longrightarrow> m = n"
  "buyOnMeteora w a n info = Bought p m h t \<Longrightarrow> m = n"
  by (auto simp: buyOnPumpFun_def buyOnRaydium_def buyOnMeteora_def
      split: sum.splits if_splits meteora_pool_type.splits)

text \<open>The balances of the example wallets as \<open>getBalance\<close> reports them: 3.7 and 0.9 are
  not doubles and come back as their nearest doubles; ten wei below 1 BNB comes back
  as 1.\<close>

lemma getBalance_examples:
  "bsc_getBalance bscChain = Inr (toDouble (37 / 10))"
  "bsc_getBalance bscChainRevert = Inr (toDouble (37 / 10))"
  "bsc_getBalance bscChainNoContract = Inr (toDouble (37 / 10))"
  "bsc_getBalance bscChainPoor = Inr (toDouble (9 / 10))"
  "bsc_getBalance bscChainAlmostOne = Inr 1"
  "sol_getBalance solChain = Inr (toDouble (37 / 10))"
  "sol_getBalance solChainPoor = Inr (toDouble (9 / 10))"
  by code_simp+

lemma floor_examples:
  "\<lfloor>toDouble (37 / 10)\<rfloor> = 3" "\<lfloor>toDouble (9 / 10)\<rfloor> = 0"
  "\<lfloor>formatEther 999999999999999990\<rfloor> = 0"
  by code_simp+

section \<open>The venue chains\<close>

text \<open>
  C10. A string that is not \<open>0x\<close> followed by exactly 40 hexadecimal digits makes the BSC
  \<open>buyToken\<close> (of both revisions) return \<open>{success: false, error: 'Invalid address
  format'}\<close> with an empty trace: the balance is not read and no venue is contacted. The Solana \<open>buyToken\<close> has no
  such check: whatever the string, its first action is the balance read.
\<close>

theorem bsc_rejects_malformed_address:
  "(\<not> isBscFormat addr \<longrightarrow>
      bsc_buyToken wb addr = (Failed ''Invalid address format'', []) \<and>
      bsc_buyToken_first wb addr = (Failed ''Invalid address format'', []))
   \<and> (\<exists>rest. snd (sol_buyToken ws addr) = BalanceRead # rest)"
  by (simp add: bsc_buyToken_def bsc_buyToken_first_def bscExact_iff sol_buyToken_def Let_def
      split: sum.splits option.splits)

theorem bsc_rejects_malformed_address_witness:
  "\<not> isBscFormat ''0x123''
   \<and> bsc_buyToken bscChain ''0x123'' = (Failed ''Invalid address format'', [])
   \<and> bsc_buyToken_first bscChain ''0x123'' = (Failed ''Invalid address format'', [])
   \<and> (\<exists>rest. snd (sol_buyToken solChain ''0x123'') = BalanceRead # rest)
   \<and> snd (sol_buyToken solChain ''0x123'') = [BalanceRead, Probe PumpFun, Trade PumpFun 3]"
  using bsc_rejects_malformed_address [of "''0x123''" bscChain solChain]
  apply (simp add: isBscFormat_def sol_buyToken_def getBalance_examples Let_def floor_examples)
  apply (simp add: solChain_def checkPumpFun_def)
  done

text \<open>
  C2. Once a trade has been started on a venue, the call returns what that trade adapter
  returned, a failure included, and the trade is the last thing the call does: it is
  preceded by the probe of the same venue, and no probe and no second trade follows.
\<close>

theorem trade_attempt_is_terminal:
  "(Trade v n \<in> set (snd (bsc_buyToken wb a)) \<longrightarrow>
      fst (bsc_buyToken wb a) = bsc_buyOn v wb a n \<and>
      (\<exists>pre. snd (bsc_buyToken wb a) = pre @ [Probe v, Trade v n] \<and> trades pre = []))
   \<and> (Trade v n \<in> set (snd (sol_buyToken ws a)) \<longrightarrow>
      (v = PumpFun \<longrightarrow> fst (sol_buyToken ws a) = buyOnPumpFun ws a n) \<and>
      (v = Raydium \<longrightarrow> fst (sol_buyToken ws a) = buyOnRaydium ws a n) \<and>
      (v = Meteora \<longrightarrow>
         (\<exists>info. checkMeteora ws a = Some info \<and>
            fst (sol_buyToken ws a) = buyOnMeteora ws a n info)) \<and>
      (\<exists>pre. snd (sol_buyToken ws a) = pre @ [Probe v, Trade v n] \<and> trades pre = []))"
  by (auto simp add: bsc_buyToken_def sol_buyToken_def Let_def trades_def buyOnFourMeme_def
      buyOnPancakeSwap_def split: sum.splits option.splits if_splits)

theorem trade_attempt_is_terminal_witness:
  "Trade FourMeme 3 \<in> set (snd (bsc_buyToken bscChainRevert tokenA))
   \<and> fst (bsc_buyToken bscChainRevert tokenA) = Failed ''execution reverted''
   \<and> snd (bsc_buyToken bscChainRevert tokenA) =
       [BalanceRead, TokenInfoRead, Probe FourMeme, Trade FourMeme 3]
   \<and> hasLiquidity (checkPancakeSwapLiquidity bscChainRevert tokenA)
   \<and> Trade PumpFun 3 \<in> set (snd (sol_buyToken solChain tokenA))
   \<and> fst (sol_buyToken solChain tokenA) = Failed ''Transaction simulation failed''
   \<and> snd (sol_buyToken solChain tokenA) = [BalanceRead, Probe PumpFun, Trade PumpFun 3]"
  using trade_attempt_is_terminal [of FourMeme 3 bscChainRevert tokenA solChain]
    trade_attempt_is_terminal [of PumpFun 3 bscChainRevert tokenA solChain] tokenA_format
  apply (simp add: bsc_buyToken_def bscExact_iff getBalance_examples sol_buyToken_def Let_def
      floor_examples)
  apply (simp add: bscChainRevert_def bscChain_def getTokenInfo_def checkFourMeme_def
      isAvailable_def buyOnFourMeme_def bsc_buyOn_def hasLiquidity_def
      checkPancakeSwapLiquidity_def solChain_def checkPumpFun_def buyOnPumpFun_def)
  done

text \<open>
  C1, as the claim states it, fails: a well-formed address and a wallet of 3.7 BNB, a token
  contract whose name, symbol or decimals cannot be read, Four.meme reporting the token not
  live. The call returns \<open>'Invalid token contract'\<close> and probes no venue, PancakeSwap
  included, although PancakeSwap would quote.
\<close>

theorem bsc_venue_priority_counterexample:
  "isBscFormat tokenA
   \<and> \<not> isAvailable (checkFourMeme bscChainNoContract tokenA)
   \<and> hasLiquidity (checkPancakeSwapLiquidity bscChainNoContract tokenA)
   \<and> probes (snd (bsc_buyToken bscChainNoContract tokenA)) = []
   \<and> PancakeSwap \<notin> set (probes (snd (bsc_buyToken bscChainNoContract tokenA)))
   \<and> fst (bsc_buyToken bscChainNoContract tokenA) = Failed ''Invalid token contract''"
  using tokenA_format
  apply (simp add: bsc_buyToken_def bscExact_iff getBalance_examples Let_def floor_examples)
  apply (simp add: bscChainNoContract_def bscChain_def getTokenInfo_def checkFourMeme_def
      isAvailable_def hasLiquidity_def checkPancakeSwapLiquidity_def probes_def)
  done

text \<open>
  C1, amended. For a BSC acquisition whose address is well formed, whose balance read returns
  a number of at least 1 and whose token contract can be read: the venues probed are
  Four.meme, and then PancakeSwap exactly when Four.meme is not available (a throwing
  Four.meme read counts as not available, and Four.meme is available when \<open>isTokenLive\<close>
  answers true and the price and the quote can be read); the one trade is on the first venue
  that is available, with the floor of the number read; with no venue available the result
  is the not-available failure and there is no trade. An acquisition that fails one of the
  three checks returns that check's failure and probes no venue: a malformed address gives
  \<open>'Invalid address format'\<close> before anything is read; a throwing balance read gives its
  error message and a number below 1 gives \<open>'Insufficient balance'\<close>, both right after the
  balance read; an unreadable token contract gives \<open>'Invalid token contract'\<close> right after
  the read of the contract.
\<close>

theorem bsc_venue_priority:
  "(isBscFormat a \<and> bsc_getBalance w = Inr balance \<and> 1 \<le> \<lfloor>balance\<rfloor> \<and> getTokenInfo w a \<noteq> None \<longrightarrow>
      (isAvailable (checkFourMeme w a) \<longrightarrow>
         probes (snd (bsc_buyToken w a)) = [FourMeme] \<and>
         trades (snd (bsc_buyToken w a)) = [(FourMeme, \<lfloor>balance\<rfloor>)] \<and>
         fst (bsc_buyToken w a) = buyOnFourMeme w a \<lfloor>balance\<rfloor>) \<and>
      (\<not> isAvailable (checkFourMeme w a) \<longrightarrow>
         probes (snd (bsc_buyToken w a)) = [FourMeme, PancakeSwap]) \<and>
      (\<not> isAvailable (checkFourMeme w a) \<and> hasLiquidity (checkPancakeSwapLiquidity w a) \<longrightarrow>
         trades (snd (bsc_buyToken w a)) = [(PancakeSwap, \<lfloor>balance\<rfloor>)] \<and>
         fst (bsc_buyToken w a) = buyOnPancakeSwap w a \<lfloor>balance\<rfloor>) \<and>
      (\<not> isAvailable (checkFourMeme w a) \<and> \<not> hasLiquidity (checkPancakeSwapLiquidity w a) \<longrightarrow>
         trades (snd (bsc_buyToken w a)) = [] \<and>
         fst (bsc_buyToken w a) = Failed ''Token not available on supported platforms'') \<and>
      ((\<exists>e. isTokenLive w a = Inl e) \<longrightarrow> \<not> isAvailable (checkFourMeme w a)) \<and>
      isAvailable (checkFourMeme w a) =
        (isTokenLive w a = Inr True \<and> (\<exists>price. getTokenPrice w a = Inr price) \<and>
         (\<exists>tokensOut. getBuyQuote w a = Inr tokensOut)))
   \<and> (\<not> isBscFormat a \<longrightarrow> bsc_buyToken w a = (Failed ''Invalid address format'', []))
   \<and> (isBscFormat a \<and> bsc_getBalance w = Inl err \<longrightarrow>
        bsc_buyToken w a = (Failed err, [BalanceRead]))
   \<and> (isBscFormat a \<and> bsc_getBalance w = Inr balance \<and> \<lfloor>balance\<rfloor> < 1 \<longrightarrow>
        bsc_buyToken w a = (Failed ''Insufficient balance'', [BalanceRead]))
   \<and> (isBscFormat a \<and> bsc_getBalance w = Inr balance \<and> 1 \<le> \<lfloor>balance\<rfloor> \<and>
        getTokenInfo w a = None \<longrightarrow>
        bsc_buyToken w a = (Failed ''Invalid token contract'', [BalanceRead, TokenInfoRead]))
   \<and> (\<not> isBscFormat a \<or> (\<exists>e. bsc_getBalance w = Inl e) \<or>
       (\<exists>b. bsc_getBalance w = Inr b \<and> \<lfloor>b\<rfloor> < 1) \<or> getTokenInfo w a = None \<longrightarrow>
      probes (snd (bsc_buyToken w a)) = [] \<and> trades (snd (bsc_buyToken w a)) = [] \<and>
      \<not> success (fst (bsc_buyToken w a)))"
  by (auto simp add: bsc_buyToken_def bscExact_iff Let_def probes_def trades_def
      checkFourMeme_def isAvailable_def success_def split: sum.splits)

theorem bsc_venue_priority_witness:
  "isBscFormat tokenA \<and> bsc_getBalance bscChain = Inr (toDouble (37 / 10))
   \<and> 1 \<le> \<lfloor>toDouble (37 / 10)\<rfloor>
   \<and> getTokenInfo bscChain tokenA \<noteq> None
   \<and> \<not> isAvailable (checkFourMeme bscChain tokenA)
   \<and> hasLiquidity (checkPancakeSwapLiquidity bscChain tokenA)
   \<and> probes (snd (bsc_buyToken bscChain tokenA)) = [FourMeme, PancakeSwap]
   \<and> trades (snd (bsc_buyToken bscChain tokenA)) = [(PancakeSwap, 3)]
   \<and> isAvailable (checkFourMeme bscChainRevert tokenA)
   \<and> probes (snd (bsc_buyToken bscChainRevert tokenA)) = [FourMeme]
   \<and> trades (snd (bsc_buyToken bscChainRevert tokenA)) = [(FourMeme, 3)]
   \<and> \<not> isBscFormat ''0x123''
   \<and> bsc_buyToken bscChain ''0x123'' = (Failed ''Invalid address format'', [])
   \<and> bsc_getBalance bscChainPoor = Inr (toDouble (9 / 10)) \<and> \<lfloor>toDouble (9 / 10)\<rfloor> < 1
   \<and> bsc_buyToken bscChainPoor tokenA = (Failed ''Insufficient balance'', [BalanceRead])
   \<and> getTokenInfo bscChainNoContract tokenA = None
   \<and> bsc_buyToken bscChainNoContract tokenA =
       (Failed ''Invalid token contract'', [BalanceRead, TokenInfoRead])"
  using bsc_venue_priority [of tokenA bscChain "toDouble (37 / 10)"]
    bsc_venue_priority [of tokenA bscChainRevert "toDouble (37 / 10)"]
    bsc_venue_priority [of "''0x123''" bscChain 0]
    bsc_venue_priority [of tokenA bscChainPoor "toDouble (9 / 10)"]
    bsc_venue_priority [of tokenA bscChainNoContract "toDouble (37 / 10)"] tokenA_format
  apply (simp add: getBalance_examples floor_examples)
  apply (simp add: bscChain_def bscChainRevert_def bscChainNoContract_def bscChainPoor_def
      getTokenInfo_def checkFourMeme_def isAvailable_def hasLiquidity_def
      checkPancakeSwapLiquidity_def isBscFormat_def)
  done

text \<open>
  What both \<open>buyToken\<close> do with the number \<open>getBalance\<close> returns: below 1 (on BSC after the
  address check) the call ends with the insufficient-balance failure right after the
  balance read; every trade that is started, and every successful result, carries the
  floor of that number.
\<close>

lemma buyAmount_is_floor_of_number:
  "(sol_getBalance ws = Inr b \<longrightarrow>
      (\<lfloor>b\<rfloor> < 1 \<longrightarrow> sol_buyToken ws a = (Failed ''Insufficient balance'', [BalanceRead])) \<and>
      (\<forall>v n. Trade v n \<in> set (snd (sol_buyToken ws a)) \<longrightarrow> n = \<lfloor>b\<rfloor>) \<and>
      (\<forall>p m h t. fst (sol_buyToken ws a) = Bought p m h t \<longrightarrow> m = \<lfloor>b\<rfloor>))
   \<and> (bsc_getBalance wb = Inr b' \<longrightarrow>
      (isBscFormat a' \<and> \<lfloor>b'\<rfloor> < 1 \<longrightarrow>
         bsc_buyToken wb a' = (Failed ''Insufficient balance'', [BalanceRead])) \<and>
      (\<forall>v n. Trade v n \<in> set (snd (bsc_buyToken wb a')) \<longrightarrow> n = \<lfloor>b'\<rfloor>) \<and>
      (\<forall>p m h t. fst (bsc_buyToken wb a') = Bought p m h t \<longrightarrow> m = \<lfloor>b'\<rfloor>))"
  by (auto simp add: bsc_buyToken_def sol_buyToken_def bscExact_iff Let_def
      buyOnFourMeme_def buyOnPancakeSwap_def
      dest: bsc_buyOn_amount sol_buyOn_amount split: sum.splits option.splits if_splits)

text \<open>
  C3. The number \<open>getBalance\<close> returns is not the balance of the wallet but the double nearest
  to it, and the floor is taken of that number. A BSC wallet holding 999999999999999990 wei
  (ten wei less than 1 BNB; the floor of its balance in BNB is 0) reads as exactly 1: with a
  well-formed address, a readable token contract and the token live on Four.meme,
  \<open>buyToken\<close> does not return the insufficient-balance failure; it probes Four.meme and starts a
  trade of 1 BNB, more than the wallet holds.
\<close>

theorem budget_floor_rounding:
  "bscBalance bscChainAlmostOne = Inr 999999999999999990
   \<and> \<lfloor>formatEther 999999999999999990\<rfloor> = 0
   \<and> bsc_getBalance bscChainAlmostOne = Inr 1
   \<and> match_found bscExactRegex tokenA
   \<and> bsc_buyToken bscChainAlmostOne tokenA =
       (Failed ''execution reverted'',
        [BalanceRead, TokenInfoRead, Probe FourMeme, Trade FourMeme 1])
   \<and> fst (bsc_buyToken bscChainAlmostOne tokenA) \<noteq> Failed ''Insufficient balance''"
  using tokenA_format
  apply (simp add: bsc_buyToken_def bscExact_iff getBalance_examples floor_examples Let_def)
  apply (simp add: bscChainAlmostOne_def bscChainRevert_def bscChain_def getTokenInfo_def
      checkFourMeme_def isAvailable_def buyOnFourMeme_def bsc_buyOn_def)
  done

section \<open>The address detector\<close>

lemma scan_elems:
  "m \<in> set (scan r q) \<Longrightarrow>
   \<exists>prev s prev' s'. (prev', s') \<in> set (step r (prev, s)) \<and>
      m = (if length s' < length s then take (length s - length s') s else [])"
proof (induction r q rule: scan.induct)
  case (1 r prev s)
  show ?case
  proof (cases "step r (prev, s)")
    case Nil
    show ?thesis
    proof (cases s)
      case Nil
      with \<open>step r (prev, s) = []\<close> "1.prems" show ?thesis by (simp add: scan_Nil)
    next
      case (Cons c cs)
      with \<open>step r (prev, s) = []\<close> "1.prems" have "m \<in> set (scan r (Some c, cs))"
        by (simp add: scan_Cons)
      with "1.IH"(1) [OF \<open>step r (prev, s) = []\<close> Cons] show ?thesis .
    qed
  next
    case (Cons q' qs)
    obtain prev' s' where q': "q' = (prev', s')" by (cases q')
    have hd_in: "(prev', s') \<in> set (step r (prev, s))" using Cons q' by simp
    show ?thesis
    proof (cases "length s' < length s")
      case True
      from "1.prems" have "m = take (length s - length s') s \<or> m \<in> set (scan r (prev', s'))"
        by (subst (asm) scan.simps) (simp add: Cons q' True)
      then show ?thesis
      proof
        assume "m = take (length s - length s') s"
        with hd_in True show ?thesis by (intro exI [of _ prev] exI [of _ s] exI [of _ prev'] exI [of _ s']) simp
      next
        assume "m \<in> set (scan r (prev', s'))"
        with "1.IH"(2) [OF Cons q' [symmetric] True] show ?thesis by blast
      qed
    next
      case False
      show ?thesis
      proof (cases s)
        case Nil
        with "1.prems" Cons q' have "m = []" by (simp add: scan_Nil)
        with hd_in False show ?thesis
          by (intro exI [of _ prev] exI [of _ s] exI [of _ prev'] exI [of _ s']) simp
      next
        case (Cons c cs)
        from "1.prems" have "m \<in> set (scan r (prev, c # cs))" using Cons by simp
        moreover have "step r (prev, c # cs) = (prev', s') # qs"
          using \<open>step r (prev, s) = q' # qs\<close> q' Cons by simp
        moreover have "\<not> length s' < Suc (length cs)" using False Cons by simp
        ultimately have "m = [] \<or> m \<in> set (scan r (Some c, cs))"
          by (simp add: scan_Cons)
        then show ?thesis
        proof
          assume "m = []"
          with hd_in False show ?thesis
            by (intro exI [of _ prev] exI [of _ s] exI [of _ prev'] exI [of _ s']) simp
        next
          assume "m \<in> set (scan r (Some c, cs))"
          with "1.IH"(3) [OF \<open>step r (prev, s) = q' # qs\<close> q' [symmetric] False Cons]
          show ?thesis by blast
        qed
      qed
    qed
  qed
qed

lemma step_Bnd_subset: "q' \<in> set (step Bnd q) \<Longrightarrow> q' = q"
  by (simp split: if_splits)

lemma step_bounded_run:
  assumes "(prev', s') \<in> set (step (Seq Bnd (Seq (Rep lo (Some hi) p) Bnd)) (prev, s))"
  shows "\<exists>k. lo \<le> k \<and> k \<le> hi \<and> k \<le> length s \<and> s' = drop k s \<and> (\<forall>c \<in> set (take k s). p c)"
proof -
  from assms obtain q2 where q2: "q2 \<in> set (run p hi (prev, s))"
      "lo + length (snd q2) \<le> length s" "(prev', s') \<in> set (step Bnd q2)"
    by (auto split: if_splits)
  from q2(3) have eq: "q2 = (prev', s')" by (auto split: if_splits)
  from run_sound [OF q2(1)] obtain k where k: "k \<le> hi" "k \<le> length s" "snd q2 = drop k s"
      "\<forall>c \<in> set (take k s). p c"
    by auto
  from q2(2) k have "lo \<le> k" by simp
  with k eq show ?thesis by auto
qed

lemma solana_candidates:
  assumes "m \<in> set (match_g solanaRegex text)"
  shows "32 \<le> length m \<and> length m \<le> 44 \<and> (\<forall>c \<in> set m. isBase58 c)"
proof -
  from assms obtain prev s prev' s' where
    st: "(prev', s') \<in> set (step solanaRegex (prev, s))" and
    m: "m = (if length s' < length s then take (length s - length s') s else [])"
    unfolding match_g_def by (blast dest: scan_elems)
  from step_bounded_run [OF st [unfolded solanaRegex_def]] obtain k where
    k: "32 \<le> k" "k \<le> 44" "k \<le> length s" "s' = drop k s" "\<forall>c \<in> set (take k s). isBase58 c"
    by auto
  then have "m = take k s" using m by auto
  with k show ?thesis by simp
qed

lemma candidates_of_example:
  "match_g solanaRegex tweetTwoCandidates =
     [''22222222222222222222222222222222'', ''So11111111111111111111111111111111111111112'']"
  by code_simp

lemma decode_examples:
  "map_option length (bs58_decode ''So11111111111111111111111111111111111111112'') = Some 32"
  "map_option length (bs58_decode ''22222222222222222222222222222222'') = Some 23"
  by code_simp+

lemma link_only_example:
  "extractSolanaAddresses decode tweetLinkOnly = []"
  "extractBSCAddresses tweetLinkOnly = []"
  "containsCryptoKeywords tweetLinkOnly = []"
  "extractUrls tweetLinkOnly = [''https://t.co/abc123'', ''https://t.co/abc123'']"
proof -
  have "match_g solanaRegex tweetLinkOnly = []" by code_simp
  then show "extractSolanaAddresses decode tweetLinkOnly = []"
    by (simp add: extractSolanaAddresses_def)
  show "extractBSCAddresses tweetLinkOnly = []" by code_simp
  show "containsCryptoKeywords tweetLinkOnly = []" by code_simp
  show "extractUrls tweetLinkOnly = [''https://t.co/abc123'', ''https://t.co/abc123'']"
    by code_simp
qed

text \<open>
  C4. Whatever the decoder does, an address that \<open>extractSolanaAddresses\<close> returns is one
  of the matches of the pattern, so a run of 32 to 44 base58 characters, and the decoder
  returns exactly 32 bytes for it; a match for which the decoder throws or returns another
  number of bytes is not in the result.
\<close>

theorem solana_extractor_filters:
  "(a \<in> set (extractSolanaAddresses decode text) \<longrightarrow>
      a \<in> set (match_g solanaRegex text) \<and> 32 \<le> length a \<and> length a \<le> 44 \<and>
      (\<forall>c \<in> set a. isBase58 c) \<and> (\<exists>bytes. decode a = Some bytes \<and> length bytes = 32))
   \<and> (cand \<in> set (match_g solanaRegex text) \<and>
       (\<forall>bytes. decode cand = Some bytes \<longrightarrow> length bytes \<noteq> 32) \<longrightarrow>
      cand \<notin> set (extractSolanaAddresses decode text))"
  using solana_candidates [of a "text"]
  by (auto simp: extractSolanaAddresses_def isValidSolanaAddress_def split: option.splits)

theorem solana_extractor_filters_witness:
  "''So11111111111111111111111111111111111111112'' \<in> set (extractSolanaAddresses bs58_decode tweetTwoCandidates)
   \<and> (\<exists>bytes. bs58_decode ''So11111111111111111111111111111111111111112'' = Some bytes \<and> length bytes = 32)
   \<and> ''22222222222222222222222222222222'' \<in> set (match_g solanaRegex tweetTwoCandidates)
   \<and> map_option length (bs58_decode ''22222222222222222222222222222222'') = Some 23
   \<and> ''22222222222222222222222222222222'' \<notin> set (extractSolanaAddresses bs58_decode tweetTwoCandidates)"
  using solana_extractor_filters [of "''So11111111111111111111111111111111111111112''" bs58_decode
      tweetTwoCandidates "''22222222222222222222222222222222''"]
    candidates_of_example decode_examples
  by (auto simp: extractSolanaAddresses_def isValidSolanaAddress_def split: option.splits)

text \<open>
  C5. \<open>hasCryptoContent\<close> is true exactly when a Solana address, a BSC address or a keyword
  was found; the links play no part, so a text with links only gives false.
\<close>

theorem hasCryptoContent_iff:
  "hasCryptoContent (analyzeTweet decode now text) =
     (extractSolanaAddresses decode text \<noteq> [] \<or> extractBSCAddresses text \<noteq> [] \<or>
      containsCryptoKeywords text \<noteq> [])
   \<and> solanaAddresses (analyzeTweet decode now text) = extractSolanaAddresses decode text
   \<and> bscAddresses (analyzeTweet decode now text) = extractBSCAddresses text
   \<and> keywordsFound (analyzeTweet decode now text) = containsCryptoKeywords text
   \<and> urls (analyzeTweet decode now text) = extractUrls text
   \<and> (extractSolanaAddresses decode text = [] \<and> extractBSCAddresses text = [] \<and>
      containsCryptoKeywords text = [] \<longrightarrow> \<not> hasCryptoContent (analyzeTweet decode now text))"
  by (simp add: analyzeTweet_def Let_def)

theorem hasCryptoContent_iff_witness:
  "extractSolanaAddresses bs58_decode tweetLinkOnly = [] \<and> extractBSCAddresses tweetLinkOnly = []
   \<and> containsCryptoKeywords tweetLinkOnly = []
   \<and> urls (analyzeTweet bs58_decode ''2024-01-01T00:00:00.000Z'' tweetLinkOnly) =
       [''https://t.co/abc123'', ''https://t.co/abc123'']
   \<and> \<not> hasCryptoContent (analyzeTweet bs58_decode ''2024-01-01T00:00:00.000Z'' tweetLinkOnly)"
  using hasCryptoContent_iff [of bs58_decode "''2024-01-01T00:00:00.000Z''" tweetLinkOnly]
    link_only_example(1) [of bs58_decode] link_only_example(2-4)
  by simp

subsection \<open>The state of the detector\<close>

text \<open>\<open>exec\<close> itself does read \<open>lastIndex\<close>: from index 0 the pattern \<open>/\btoken\b/gi\<close>
  finds the word in \<open>token\<close>, from index 5 it finds nothing.\<close>

lemma regExpExec_reads_lastIndex:
  "regExpExec (keywordPatterns ! 2) 0 ''token'' = (Some ''token'', 5)"
  "regExpExec (keywordPatterns ! 2) 5 ''token'' = (None, 0)"
  by code_simp+

subsection \<open>The methods of the object and the functions\<close>

lemma extractSolanaAddresses_obj_eq:
  "extractSolanaAddresses_obj decode d text =
     (extractSolanaAddresses decode text, d \<lparr> solanaLastIndex := 0 \<rparr>)"
  by (simp add: extractSolanaAddresses_obj_def extractSolanaAddresses_def stringMatch_match_g)

lemma extractBSCAddresses_obj_eq:
  "extractBSCAddresses_obj d text = (extractBSCAddresses text, d \<lparr> bscLastIndex := 0 \<rparr>)"
  by (simp add: extractBSCAddresses_obj_def extractBSCAddresses_def stringMatch_match_g)

lemma keywordLoop_eq:
  "keywordLoop ps d text =
     (concat (map (\<lambda>pattern. match_g pattern text) (map snd ps)),
      d \<lparr> keywordLastIndex := (\<lambda>k. if k \<in> fst ` set ps then 0 else keywordLastIndex d k) \<rparr>)"
proof (induction ps arbitrary: d)
  case Nil
  then show ?case by simp
next
  case (Cons p ps)
  obtain k pattern where p: "p = (k, pattern)" by (cases p)
  show ?case
    by (simp add: p stringMatch_match_g Cons.IH fun_eq_iff)
qed

lemma containsCryptoKeywords_obj_eq:
  "containsCryptoKeywords_obj d text =
     (containsCryptoKeywords text,
      d \<lparr> keywordLastIndex :=
            (\<lambda>k. if k < length keywordPatterns then 0 else keywordLastIndex d k) \<rparr>)"
proof -
  have "fst ` set (enumerate n xs) = {n..<n + length xs}" for n and xs :: "rx list"
    by (induction xs arbitrary: n) auto
  then show ?thesis
    by (simp add: containsCryptoKeywords_obj_def containsCryptoKeywords_def keywordLoop_eq)
qed

lemma analyzeTweet_obj_eq:
  "analyzeTweet_obj decode now d text =
     (analyzeTweet decode now text,
      d \<lparr> solanaLastIndex := 0, bscLastIndex := 0,
          keywordLastIndex :=
            (\<lambda>k. if k < length keywordPatterns then 0 else keywordLastIndex d k) \<rparr>)"
  by (simp add: analyzeTweet_obj_def analyzeTweet_def Let_def extractSolanaAddresses_obj_eq
      extractBSCAddresses_obj_eq containsCryptoKeywords_obj_eq cong: if_cong)

text \<open>
  C9, as the claim states it, fails: the object \<open>analyzeTweet\<close> returns carries
  \<open>timestamp: new Date().toISOString()\<close>, so two calls on the same text at different
  times return different objects, on a new detector as on any other.
\<close>

theorem analyzeTweet_clock_counterexample:
  "analyzeTweet bs58_decode ''2024-01-01T00:00:00.000Z'' tweetLinkOnly \<noteq>
   analyzeTweet bs58_decode ''2024-01-01T00:00:01.000Z'' tweetLinkOnly
   \<and> fst (analyzeTweet_obj bs58_decode ''2024-01-01T00:00:00.000Z'' newDetector tweetLinkOnly) \<noteq>
     fst (analyzeTweet_obj bs58_decode ''2024-01-01T00:00:01.000Z'' newDetector tweetLinkOnly)"
  by (simp add: analyzeTweet_obj_eq analyzeTweet_def Let_def)

text \<open>
  C9, amended. A call of \<open>analyzeTweet\<close> on a detector in any state (whatever the
  \<open>lastIndex\<close> of each of its RegExp objects) and at any reading of the clock returns the
  flag, the two address lists, the keywords and the links that the function \<open>analyzeTweet\<close>
  of the text (and of the decoder given to the detector) gives, with \<open>timestamp\<close> the clock
  reading of the call, and leaves every \<open>lastIndex\<close> of the detector at 0. So two calls on
  the same text return objects that are equal except for \<open>timestamp\<close>, whatever the states
  and the times of the calls, the second call following the first on the same detector
  included.
\<close>

theorem analyzeTweet_deterministic_fields:
  "(fst (analyzeTweet_obj decode now1 d1 text)) \<lparr> timestamp := t \<rparr> =
     (fst (analyzeTweet_obj decode now2 d2 text)) \<lparr> timestamp := t \<rparr>
   \<and> (fst (analyzeTweet_obj decode now2 (snd (analyzeTweet_obj decode now1 d1 text)) text))
        \<lparr> timestamp := t \<rparr> =
     (fst (analyzeTweet_obj decode now1 d1 text)) \<lparr> timestamp := t \<rparr>
   \<and> fst (analyzeTweet_obj decode now1 d1 text) = analyzeTweet decode now1 text
   \<and> timestamp (fst (analyzeTweet_obj decode now1 d1 text)) = now1
   \<and> snd (analyzeTweet_obj decode now1 d1 text) =
       d1 \<lparr> solanaLastIndex := 0, bscLastIndex := 0,
            keywordLastIndex :=
              (\<lambda>k. if k < length keywordPatterns then 0 else keywordLastIndex d1 k) \<rparr>
   \<and> analyzeTweet decode now1 text \<lparr> timestamp := t \<rparr> =
       analyzeTweet decode now2 text \<lparr> timestamp := t \<rparr>
   \<and> timestamp (analyzeTweet decode now1 text) = now1"
  by (simp add: analyzeTweet_obj_eq analyzeTweet_def Let_def)

section \<open>The monitor\<close>

lemma analyzedIds_simps [simp]:
  "analyzedIds [] = []"
  "analyzedIds (xs @ ys) = analyzedIds xs @ analyzedIds ys"
  "analyzedIds [Analyzed i] = [i]"
  "analyzedIds [Alert i] = []"
  "analyzedIds [Webhook i] = []"
  "analyzedIds [Pause] = []"
  "analyzedIds (map SolanaBuy as) = []"
  "analyzedIds (map BscBuy as) = []"
  by (simp_all add: analyzedIds_def)

lemma alertIds_simps [simp]:
  "alertIds [] = []"
  "alertIds (xs @ ys) = alertIds xs @ alertIds ys"
  "alertIds [Analyzed i] = []"
  "alertIds [Alert i] = [i]"
  "alertIds [Webhook i] = []"
  "alertIds [Pause] = []"
  "alertIds (map SolanaBuy as) = []"
  "alertIds (map BscBuy as) = []"
  by (simp_all add: alertIds_def)

lemma autoBuyTokens_keeps:
  "processedTweets (autoBuyTokens cfg m r) = processedTweets m"
  "isRunning (autoBuyTokens cfg m r) = isRunning m"
  "analyzedIds (events (autoBuyTokens cfg m r)) = analyzedIds (events m)"
  "alertIds (events (autoBuyTokens cfg m r)) = alertIds (events m)"
  by (simp_all add: autoBuyTokens_def Let_def)

lemma processTweet_new:
  assumes "tweetId tw \<notin> processedTweets m"
  shows "processedTweets (snd (processTweet cfg e m tw)) = insert (tweetId tw) (processedTweets m)"
    and "isRunning (snd (processTweet cfg e m tw)) = isRunning m"
    and "analyzedIds (events (snd (processTweet cfg e m tw))) = analyzedIds (events m) @ [tweetId tw]"
    and "alertIds (events (snd (processTweet cfg e m tw))) =
           alertIds (events m) @ (if fst (processTweet cfg e m tw) = None then [] else [tweetId tw])"
    and "\<And>r. fst (processTweet cfg e m tw) = Some r \<Longrightarrow> alertId r = tweetId tw"
proof -
  let ?an = "analyzeTweet (decoder e) (clock e (clockReads m)) (orElse (tweetText tw) [])"
  show "processedTweets (snd (processTweet cfg e m tw)) = insert (tweetId tw) (processedTweets m)"
    using assms
    by (cases "hasCryptoContent ?an")
      (simp_all add: processTweet_def Let_def autoBuyTokens_keeps split: option.splits)
  show "isRunning (snd (processTweet cfg e m tw)) = isRunning m"
    using assms
    by (cases "hasCryptoContent ?an")
      (simp_all add: processTweet_def Let_def autoBuyTokens_keeps split: option.splits)
  show "analyzedIds (events (snd (processTweet cfg e m tw))) = analyzedIds (events m) @ [tweetId tw]"
    using assms
    by (cases "hasCryptoContent ?an")
      (simp_all add: processTweet_def Let_def autoBuyTokens_keeps split: option.splits)
  show "alertIds (events (snd (processTweet cfg e m tw))) =
           alertIds (events m) @ (if fst (processTweet cfg e m tw) = None then [] else [tweetId tw])"
    using assms
    by (cases "hasCryptoContent ?an")
      (simp_all add: processTweet_def Let_def autoBuyTokens_keeps split: option.splits)
  show "\<And>r. fst (processTweet cfg e m tw) = Some r \<Longrightarrow> alertId r = tweetId tw"
    using assms
    by (cases "hasCryptoContent ?an") (auto simp add: processTweet_def Let_def)
qed

lemma processTweet_seen:
  "tweetId tw \<in> processedTweets m \<Longrightarrow> processTweet cfg e m tw = (None, m)"
  by (simp add: processTweet_def)

lemma checkOne_seen: "tweetId tw \<in> processedTweets m \<Longrightarrow> checkOne cfg e m tw = m"
  by (simp add: checkOne_def)

lemma checkOne_new:
  assumes "tweetId tw \<notin> processedTweets m"
  shows "processedTweets (checkOne cfg e m tw) = insert (tweetId tw) (processedTweets m)"
    and "isRunning (checkOne cfg e m tw) = isRunning m"
    and "analyzedIds (events (checkOne cfg e m tw)) = analyzedIds (events m) @ [tweetId tw]"
    and "alertIds (events (checkOne cfg e m tw)) =
           alertIds (events m) @ (if fst (processTweet cfg e m tw) = None then [] else [tweetId tw])"
proof -
  obtain r m' where pt: "processTweet cfg e m tw = (r, m')" by (cases "processTweet cfg e m tw")
  note facts = processTweet_new [OF assms, of cfg e, unfolded pt, simplified]
  show "processedTweets (checkOne cfg e m tw) = insert (tweetId tw) (processedTweets m)"
    using assms facts by (simp add: checkOne_def pt split: option.splits)
  show "isRunning (checkOne cfg e m tw) = isRunning m"
    using assms facts by (simp add: checkOne_def pt split: option.splits)
  show "analyzedIds (events (checkOne cfg e m tw)) = analyzedIds (events m) @ [tweetId tw]"
    using assms facts by (simp add: checkOne_def pt split: option.splits)
  show "alertIds (events (checkOne cfg e m tw)) =
           alertIds (events m) @ (if fst (processTweet cfg e m tw) = None then [] else [tweetId tw])"
    using assms facts by (simp add: checkOne_def pt split: option.splits)
qed

lemma loop_order:
  "analyzedIds (events (foldl (checkOne cfg e) m ts)) =
     analyzedIds (events m) @ fresh (processedTweets m) (map tweetId ts)"
proof (induction ts arbitrary: m)
  case Nil
  then show ?case by simp
next
  case (Cons t ts)
  show ?case
  proof (cases "tweetId t \<in> processedTweets m")
    case True
    then show ?thesis using Cons.IH [of m] by (simp add: checkOne_seen)
  next
    case False
    then show ?thesis using Cons.IH [of "checkOne cfg e m t"] by (simp add: checkOne_new)
  qed
qed

lemma fresh_all: "distinct ids \<Longrightarrow> set ids \<inter> P = {} \<Longrightarrow> fresh P ids = ids"
  by (induction ids arbitrary: P) auto

lemma count_distinct: "distinct xs \<Longrightarrow> count_list xs x = (if x \<in> set xs then 1 else 0)"
  by (induction xs) auto

lemma processTweet_alert:
  "tweetId tw \<notin> processedTweets m \<Longrightarrow>
   alertIds (events (snd (processTweet cfg e m tw))) =
     alertIds (events m) @
       (if hasCryptoContent (analyzeTweet (decoder e) (clock e (clockReads m))
             (orElse (tweetText tw) []))
        then [tweetId tw] else [])"
  by (cases "hasCryptoContent (analyzeTweet (decoder e) (clock e (clockReads m))
        (orElse (tweetText tw) []))")
    (simp_all add: processTweet_def Let_def autoBuyTokens_keeps split: option.splits)

subsection \<open>What a run does to the ledger and to the detector\<close>

lemma hasCryptoContent_clock:
  "hasCryptoContent (analyzeTweet decode now text) =
   hasCryptoContent (analyzeTweet decode now' text)"
  by (simp add: analyzeTweet_def Let_def)

lemma processTweet_signal:
  assumes "tweetId tw \<notin> processedTweets m"
  shows "(fst (processTweet cfg e m tw) = None) = (\<not> hasSignal e tw)"
proof -
  let ?an = "analyzeTweet (decoder e) (clock e (clockReads m)) (orElse (tweetText tw) [])"
  have "hasCryptoContent ?an = hasSignal e tw"
    unfolding hasSignal_def by (rule hasCryptoContent_clock)
  with assms show ?thesis
    by (cases "hasCryptoContent ?an") (simp_all add: processTweet_def Let_def)
qed

lemma hasSignal_text: "tweetText t = tweetText tw \<Longrightarrow> hasSignal e t = hasSignal e tw"
  by (simp add: hasSignal_def)

lemma firsts_append:
  "firsts P (xs @ ys) = firsts P xs @ firsts (P \<union> tweetId ` set xs) ys"
  by (induction xs arbitrary: P) (simp_all add: insert_absorb)

lemma firsts_ids: "set (map tweetId (firsts P ts)) = tweetId ` set ts - P"
  by (induction ts arbitrary: P) auto

lemma firsts_distinct: "distinct (map tweetId (firsts P ts))"
proof (induction ts arbitrary: P)
  case Nil
  then show ?case by simp
next
  case (Cons t ts)
  have "tweetId t \<notin> set (map tweetId (firsts (insert (tweetId t) P) ts))"
    by (simp only: firsts_ids) simp
  with Cons show ?case by simp
qed

lemma firsts_subset: "set (firsts P ts) \<subseteq> set ts"
  by (induction ts arbitrary: P) auto

lemma firsts_fresh: "map tweetId (firsts P ts) = fresh P (map tweetId ts)"
  by (induction ts arbitrary: P) simp_all

lemma loop_ledger:
  "processedTweets (foldl (checkOne cfg e) m ts) = processedTweets m \<union> tweetId ` set ts"
proof (induction ts arbitrary: m)
  case Nil
  then show ?case by simp
next
  case (Cons t ts)
  show ?case
    by (cases "tweetId t \<in> processedTweets m")
      (auto simp: checkOne_seen checkOne_new Cons.IH)
qed

lemma loop_running: "isRunning (foldl (checkOne cfg e) m ts) = isRunning m"
proof (induction ts arbitrary: m)
  case Nil
  then show ?case by simp
next
  case (Cons t ts)
  show ?case
    by (cases "tweetId t \<in> processedTweets m")
      (simp_all add: checkOne_seen checkOne_new Cons.IH)
qed

lemma loop_analyzed:
  "analyzedIds (events (foldl (checkOne cfg e) m ts)) =
     analyzedIds (events m) @ map tweetId (firsts (processedTweets m) ts)"
  by (simp add: loop_order firsts_fresh)

lemma loop_alerts:
  "alertIds (events (foldl (checkOne cfg e) m ts)) =
     alertIds (events m) @ map tweetId (filter (hasSignal e) (firsts (processedTweets m) ts))"
proof (induction ts arbitrary: m)
  case Nil
  then show ?case by simp
next
  case (Cons t ts)
  show ?case
    by (cases "tweetId t \<in> processedTweets m")
      (simp_all add: checkOne_seen checkOne_new Cons.IH processTweet_signal)
qed

lemma checkForNewTweets_loop:
  "checkForNewTweets cfg e m tweets = foldl (checkOne cfg e) m (rev tweets)"
  by (simp add: checkForNewTweets_def)

lemma step_running:
  "isRunning (monitor_step cfg e m op) =
     (case op of Start _ \<Rightarrow> True | Stop \<Rightarrow> False | _ \<Rightarrow> isRunning m)"
proof (cases op)
  case (Start tweets)
  then show ?thesis
    by (simp add: startMonitoring_def checkForNewTweets_loop loop_running)
next
  case (Tick tweets)
  then show ?thesis
    by (simp add: intervalCallback_def checkForNewTweets_loop loop_running)
next
  case Stop
  then show ?thesis by (simp add: stopMonitoring_def)
next
  case (Process tw)
  then show ?thesis
    by (cases "tweetId tw \<in> processedTweets m") (simp_all add: processTweet_seen processTweet_new)
qed

lemma delivered_step:
  "delivered (isRunning m) (op # ops) =
     delivered (isRunning m) [op] @ delivered (isRunning (monitor_step cfg e m op)) ops"
  by (simp only: step_running) (cases op; simp)

lemma step_ledger:
  "processedTweets (monitor_step cfg e m op) =
     processedTweets m \<union> tweetId ` set (delivered (isRunning m) [op])"
proof (cases op)
  case (Start tweets)
  then show ?thesis
    by (simp add: startMonitoring_def checkForNewTweets_loop loop_ledger)
next
  case (Tick tweets)
  then show ?thesis
    by (simp add: intervalCallback_def checkForNewTweets_loop loop_ledger)
next
  case Stop
  then show ?thesis by (simp add: stopMonitoring_def)
next
  case (Process tw)
  then show ?thesis
    by (cases "tweetId tw \<in> processedTweets m")
      (auto simp: processTweet_seen processTweet_new)
qed

lemma step_analyzed:
  "analyzedIds (events (monitor_step cfg e m op)) =
     analyzedIds (events m) @
       map tweetId (firsts (processedTweets m) (delivered (isRunning m) [op]))"
proof (cases op)
  case (Start tweets)
  then show ?thesis
    by (simp add: startMonitoring_def checkForNewTweets_loop loop_analyzed)
next
  case (Tick tweets)
  then show ?thesis
    by (simp add: intervalCallback_def checkForNewTweets_loop loop_analyzed)
next
  case Stop
  then show ?thesis by (simp add: stopMonitoring_def)
next
  case (Process tw)
  then show ?thesis
    by (cases "tweetId tw \<in> processedTweets m")
      (simp_all add: processTweet_seen processTweet_new)
qed

lemma step_alerts:
  "alertIds (events (monitor_step cfg e m op)) =
     alertIds (events m) @
       map tweetId (filter (hasSignal e)
         (firsts (processedTweets m) (delivered (isRunning m) [op])))"
proof (cases op)
  case (Start tweets)
  then show ?thesis
    by (simp add: startMonitoring_def checkForNewTweets_loop loop_alerts)
next
  case (Tick tweets)
  then show ?thesis
    by (simp add: intervalCallback_def checkForNewTweets_loop loop_alerts)
next
  case Stop
  then show ?thesis by (simp add: stopMonitoring_def)
next
  case (Process tw)
  then show ?thesis
    by (cases "tweetId tw \<in> processedTweets m")
      (simp_all add: processTweet_seen processTweet_new processTweet_signal)
qed

lemma run_ledger:
  "processedTweets (foldl (monitor_step cfg e) m ops) =
     processedTweets m \<union> tweetId ` set (delivered (isRunning m) ops)"
proof (induction ops arbitrary: m)
  case Nil
  then show ?case by simp
next
  case (Cons op ops)
  show ?case
    by (simp only: foldl_Cons Cons.IH step_ledger delivered_step [of m op ops cfg e])
      (simp add: image_Un Un_assoc)
qed

lemma run_analyzed:
  "analyzedIds (events (foldl (monitor_step cfg e) m ops)) =
     analyzedIds (events m) @
       map tweetId (firsts (processedTweets m) (delivered (isRunning m) ops))"
proof (induction ops arbitrary: m)
  case Nil
  then show ?case by simp
next
  case (Cons op ops)
  show ?case
    by (simp only: foldl_Cons Cons.IH step_ledger step_analyzed
        delivered_step [of m op ops cfg e] firsts_append)
      simp
qed

lemma run_alerts:
  "alertIds (events (foldl (monitor_step cfg e) m ops)) =
     alertIds (events m) @
       map tweetId (filter (hasSignal e)
         (firsts (processedTweets m) (delivered (isRunning m) ops)))"
proof (induction ops arbitrary: m)
  case Nil
  then show ?case by simp
next
  case (Cons op ops)
  show ?case
    by (simp only: foldl_Cons Cons.IH step_ledger step_alerts
        delivered_step [of m op ops cfg e] firsts_append)
      simp
qed

lemma count_first_alert:
  "count_list (map tweetId (filter S (firsts P ts))) i =
     (if \<exists>t \<in> set (firsts P ts). tweetId t = i \<and> S t then 1 else 0)"
proof -
  have "distinct (map tweetId (filter S (firsts P ts)))"
    using firsts_distinct [of P ts] by (simp add: distinct_map_filter)
  then show ?thesis by (auto simp: count_distinct)
qed

lemma post_fields:
  "tweetId P1 = ''1''" "tweetId P2 = ''2''" "tweetId P3 = ''3''"
  by (simp_all add: P1_def P2_def P3_def post_def)

lemma monitor_examples:
  "hasSignal demoEnv P3" "hasSignal demoEnv P2" "\<not> hasSignal demoEnv P1"
  "events (foldl (monitor_step demoConfig demoEnv) newMonitor
      [Start [P3, P2], Tick [P3, P2, P1], Stop, Tick [P3], Process P3, Start [P1]]) =
     [Analyzed ''2'', Alert ''2'', Pause, Analyzed ''3'', Alert ''3'', Pause, Analyzed ''1'']"
  by code_simp+

text \<open>
  C6, as the claim states it, fails: a post in which the detector finds nothing is fed
  through the pipeline three times (by the first check, by a tick, by a direct
  \<open>processTweet\<close>); it is classified once and it is alerted on not once but never.
\<close>

theorem dedup_alert_counterexample:
  "delivered False [Start [P1], Tick [P1], Process P1] = [P1, P1, P1]
   \<and> events (foldl (monitor_step demoConfig demoEnv) newMonitor
        [Start [P1], Tick [P1], Process P1]) = [Analyzed ''1'']
   \<and> count_list (analyzedIds (events (foldl (monitor_step demoConfig demoEnv) newMonitor
        [Start [P1], Tick [P1], Process P1]))) ''1'' = 1
   \<and> count_list (alertIds (events (foldl (monitor_step demoConfig demoEnv) newMonitor
        [Start [P1], Tick [P1], Process P1]))) ''1'' = 0"
proof -
  have "events (foldl (monitor_step demoConfig demoEnv) newMonitor
        [Start [P1], Tick [P1], Process P1]) = [Analyzed ''1'']"
    by code_simp
  then show ?thesis by (simp add: analyzedIds_def alertIds_def)
qed

text \<open>
  C6, amended. No operation of the monitor (start with its first check, a timer tick, stop,
  a direct \<open>processTweet\<close>) removes an identifier from \<open>processedTweets\<close>, and a tweet whose
  identifier is in the set is skipped: \<open>processTweet\<close> returns null and changes nothing. A
  check adds the identifiers of all fetched tweets to the set and runs the detector on the
  first tweet of each identifier that was not in it, oldest first. Over any run of
  operations from a new monitor the set holds exactly the identifiers that were handed over,
  each of them has been classified exactly once, whatever the number of times it was handed
  over, and it has been alerted on exactly once if the detector found crypto content in it
  and never if it found none.
\<close>

theorem dedup_ledger_monotone:
  "processedTweets m \<subseteq> processedTweets (monitor_step cfg e m op)
   \<and> (tweetId tw \<in> processedTweets m \<longrightarrow>
        processTweet cfg e m tw = (None, m) \<and> checkOne cfg e m tw = m)
   \<and> (tweetId tw \<notin> processedTweets m \<longrightarrow>
        analyzedIds (events (snd (processTweet cfg e m tw))) =
          analyzedIds (events m) @ [tweetId tw] \<and>
        alertIds (events (snd (processTweet cfg e m tw))) =
          alertIds (events m) @
            (if hasCryptoContent (analyzeTweet (decoder e) (clock e (clockReads m))
                  (orElse (tweetText tw) []))
             then [tweetId tw] else []))
   \<and> processedTweets (checkForNewTweets cfg e m tweets) =
        processedTweets m \<union> tweetId ` set tweets
   \<and> analyzedIds (events (checkForNewTweets cfg e m tweets)) =
        analyzedIds (events m) @ map tweetId (firsts (processedTweets m) (rev tweets))
   \<and> alertIds (events (checkForNewTweets cfg e m tweets)) =
        alertIds (events m) @
          map tweetId (filter (hasSignal e) (firsts (processedTweets m) (rev tweets)))
   \<and> processedTweets (foldl (monitor_step cfg e) newMonitor ops) =
        tweetId ` set (delivered False ops)
   \<and> analyzedIds (events (foldl (monitor_step cfg e) newMonitor ops)) =
        map tweetId (firsts {} (delivered False ops))
   \<and> alertIds (events (foldl (monitor_step cfg e) newMonitor ops)) =
        map tweetId (filter (hasSignal e) (firsts {} (delivered False ops)))
   \<and> count_list (analyzedIds (events (foldl (monitor_step cfg e) newMonitor ops))) i =
        (if i \<in> tweetId ` set (delivered False ops) then 1 else 0)
   \<and> count_list (alertIds (events (foldl (monitor_step cfg e) newMonitor ops))) i =
        (if \<exists>t \<in> set (firsts {} (delivered False ops)). tweetId t = i \<and> hasSignal e t
         then 1 else 0)
   \<and> (tw \<in> set (delivered False ops) \<and>
      (\<forall>t \<in> set (delivered False ops). tweetId t = tweetId tw \<longrightarrow> tweetText t = tweetText tw) \<longrightarrow>
        count_list (analyzedIds (events (foldl (monitor_step cfg e) newMonitor ops)))
          (tweetId tw) = 1 \<and>
        count_list (alertIds (events (foldl (monitor_step cfg e) newMonitor ops)))
          (tweetId tw) = (if hasSignal e tw then 1 else 0))"
proof -
  let ?run = "foldl (monitor_step cfg e) newMonitor ops"
  let ?D = "delivered False ops"
  have led: "processedTweets ?run = tweetId ` set ?D"
    using run_ledger [of cfg e newMonitor ops] by (simp add: newMonitor_def)
  have an: "analyzedIds (events ?run) = map tweetId (firsts {} ?D)"
    using run_analyzed [of cfg e newMonitor ops] by (simp add: newMonitor_def)
  have al: "alertIds (events ?run) = map tweetId (filter (hasSignal e) (firsts {} ?D))"
    using run_alerts [of cfg e newMonitor ops] by (simp add: newMonitor_def)
  have can: "count_list (analyzedIds (events ?run)) j =
      (if j \<in> tweetId ` set ?D then 1 else 0)" for j
    using firsts_ids [of "{}" ?D] by (simp only: an count_distinct [OF firsts_distinct]) simp
  have cal: "count_list (alertIds (events ?run)) j =
      (if \<exists>t \<in> set (firsts {} ?D). tweetId t = j \<and> hasSignal e t then 1 else 0)" for j
    by (simp only: al count_first_alert)
  have post: "count_list (alertIds (events ?run)) (tweetId tw) = (if hasSignal e tw then 1 else 0)"
    if tw: "tw \<in> set ?D"
      and same: "\<forall>t \<in> set ?D. tweetId t = tweetId tw \<longrightarrow> tweetText t = tweetText tw"
  proof -
    from tw have "tweetId tw \<in> set (map tweetId (firsts {} ?D))"
      by (simp only: firsts_ids) simp
    then obtain t0 where t0: "t0 \<in> set (firsts {} ?D)" "tweetId t0 = tweetId tw" by auto
    have sig: "hasSignal e t = hasSignal e tw"
      if "t \<in> set (firsts {} ?D)" "tweetId t = tweetId tw" for t
      using that same firsts_subset [of "{}" ?D] by (intro hasSignal_text) auto
    show ?thesis
      using t0 sig by (simp only: cal) auto
  qed
  have step: "processedTweets m \<subseteq> processedTweets (monitor_step cfg e m op)"
    by (simp only: step_ledger) simp
  have chk: "processedTweets (checkForNewTweets cfg e m tweets) =
        processedTweets m \<union> tweetId ` set tweets"
    by (simp add: checkForNewTweets_loop loop_ledger)
  have seen: "tweetId tw \<in> processedTweets m \<longrightarrow>
        processTweet cfg e m tw = (None, m) \<and> checkOne cfg e m tw = m"
    by (simp add: processTweet_seen checkOne_seen)
  have new: "tweetId tw \<notin> processedTweets m \<longrightarrow>
        analyzedIds (events (snd (processTweet cfg e m tw))) =
          analyzedIds (events m) @ [tweetId tw] \<and>
        alertIds (events (snd (processTweet cfg e m tw))) =
          alertIds (events m) @
            (if hasCryptoContent (analyzeTweet (decoder e) (clock e (clockReads m))
                  (orElse (tweetText tw) []))
             then [tweetId tw] else [])"
    by (simp add: processTweet_new(3) processTweet_alert)
  have chk_an: "analyzedIds (events (checkForNewTweets cfg e m tweets)) =
        analyzedIds (events m) @ map tweetId (firsts (processedTweets m) (rev tweets))"
    by (simp only: checkForNewTweets_loop loop_analyzed)
  have chk_al: "alertIds (events (checkForNewTweets cfg e m tweets)) =
        alertIds (events m) @
          map tweetId (filter (hasSignal e) (firsts (processedTweets m) (rev tweets)))"
    by (simp only: checkForNewTweets_loop loop_alerts)
  have once: "tw \<in> set ?D \<and>
      (\<forall>t \<in> set ?D. tweetId t = tweetId tw \<longrightarrow> tweetText t = tweetText tw) \<longrightarrow>
        count_list (analyzedIds (events ?run)) (tweetId tw) = 1 \<and>
        count_list (alertIds (events ?run)) (tweetId tw) = (if hasSignal e tw then 1 else 0)"
  proof (intro impI conjI)
    assume a: "tw \<in> set ?D \<and>
      (\<forall>t \<in> set ?D. tweetId t = tweetId tw \<longrightarrow> tweetText t = tweetText tw)"
    then have tw: "tw \<in> set ?D"
      and same: "\<forall>t \<in> set ?D. tweetId t = tweetId tw \<longrightarrow> tweetText t = tweetText tw"
      by (rule conjunct1, rule conjunct2)
    from tw show "count_list (analyzedIds (events ?run)) (tweetId tw) = 1"
      by (simp only: can) simp
    from tw same show "count_list (alertIds (events ?run)) (tweetId tw) =
        (if hasSignal e tw then 1 else 0)"
      by (rule post)
  qed
  show ?thesis
    by (intro conjI) (rule step seen new chk chk_an chk_al led an al can cal once)+
qed

theorem dedup_ledger_monotone_witness:
  "tweetId P3 \<in> processedTweets (monitor_step demoConfig demoEnv newMonitor (Process P3))
   \<and> processTweet demoConfig demoEnv
        (monitor_step demoConfig demoEnv newMonitor (Process P3)) P3 =
        (None, monitor_step demoConfig demoEnv newMonitor (Process P3))
   \<and> delivered False
        [Start [P3, P2], Tick [P3, P2, P1], Stop, Tick [P3], Process P3, Start [P1]] =
        [P2, P3, P1, P2, P3, P3, P1]
   \<and> events (foldl (monitor_step demoConfig demoEnv) newMonitor
        [Start [P3, P2], Tick [P3, P2, P1], Stop, Tick [P3], Process P3, Start [P1]]) =
        [Analyzed ''2'', Alert ''2'', Pause, Analyzed ''3'', Alert ''3'', Pause, Analyzed ''1'']
   \<and> hasSignal demoEnv P3
   \<and> count_list (analyzedIds (events (foldl (monitor_step demoConfig demoEnv) newMonitor
        [Start [P3, P2], Tick [P3, P2, P1], Stop, Tick [P3], Process P3, Start [P1]]))) ''3'' = 1
   \<and> count_list (alertIds (events (foldl (monitor_step demoConfig demoEnv) newMonitor
        [Start [P3, P2], Tick [P3, P2, P1], Stop, Tick [P3], Process P3, Start [P1]]))) ''3'' = 1"
proof -
  let ?m1 = "monitor_step demoConfig demoEnv newMonitor (Process P3)"
  let ?ops = "[Start [P3, P2], Tick [P3, P2, P1], Stop, Tick [P3], Process P3, Start [P1]]"
  let ?run = "foldl (monitor_step demoConfig demoEnv) newMonitor ?ops"
  note first = dedup_ledger_monotone [of newMonitor demoConfig demoEnv Stop P3 "[]"
      "[Process P3]" "''3''"]
  note run = dedup_ledger_monotone [of ?m1 demoConfig demoEnv Stop P3 "[]" ?ops "''3''"]
  from first have "processedTweets (foldl (monitor_step demoConfig demoEnv) newMonitor [Process P3]) =
      tweetId ` set (delivered False [Process P3])"
    by (elim conjE)
  then have marked: "tweetId P3 \<in> processedTweets ?m1" by simp
  from run have "tweetId P3 \<in> processedTweets ?m1 \<longrightarrow>
      processTweet demoConfig demoEnv ?m1 P3 = (None, ?m1) \<and> checkOne demoConfig demoEnv ?m1 P3 = ?m1"
    by (elim conjE)
  with marked have skipped: "processTweet demoConfig demoEnv ?m1 P3 = (None, ?m1)" by simp
  have D: "delivered False ?ops = [P2, P3, P1, P2, P3, P3, P1]" by simp
  from run have "P3 \<in> set (delivered False ?ops) \<and>
      (\<forall>t \<in> set (delivered False ?ops). tweetId t = tweetId P3 \<longrightarrow> tweetText t = tweetText P3) \<longrightarrow>
        count_list (analyzedIds (events ?run)) (tweetId P3) = 1 \<and>
        count_list (alertIds (events ?run)) (tweetId P3) = (if hasSignal demoEnv P3 then 1 else 0)"
    by (elim conjE)
  then have counts: "count_list (analyzedIds (events ?run)) ''3'' = 1 \<and>
        count_list (alertIds (events ?run)) ''3'' = 1"
    by (simp only: D) (simp add: post_fields monitor_examples(1))
  from marked skipped D counts monitor_examples(1,4) show ?thesis by simp
qed

subsection \<open>The order of a tick\<close>

lemma checkForNewTweets_order:
  "analyzedIds (events (checkForNewTweets cfg e m tweets)) =
     analyzedIds (events m) @ fresh (processedTweets m) (rev (map tweetId tweets))"
  by (simp add: checkForNewTweets_def loop_order rev_map)

lemma checkForNewTweets_oldest_first:
  "distinct (map tweetId tweets) \<Longrightarrow> \<forall>tw \<in> set tweets. tweetId tw \<notin> processedTweets m \<Longrightarrow>
   analyzedIds (events (checkForNewTweets cfg e m tweets)) =
     analyzedIds (events m) @ rev (map tweetId tweets)"
  using fresh_all [of "rev (map tweetId tweets)" "processedTweets m"]
  by (auto simp: checkForNewTweets_order)

lemma checkOne_first_seen: "tweetId tw \<in> processedTweets m \<Longrightarrow> checkOne_first cfg e m tw = m"
  by (simp add: checkOne_first_def)

lemma checkOne_first_new:
  assumes "tweetId tw \<notin> processedTweets m"
  shows "processedTweets (checkOne_first cfg e m tw) = insert (tweetId tw) (processedTweets m)"
    and "analyzedIds (events (checkOne_first cfg e m tw)) = analyzedIds (events m) @ [tweetId tw]"
proof -
  let ?an = "analyzeTweet (decoder e) (clock e (clockReads m)) (orElse (tweetText tw) [])"
  show "processedTweets (checkOne_first cfg e m tw) = insert (tweetId tw) (processedTweets m)"
    using assms
    by (cases "hasCryptoContent ?an")
      (simp_all add: checkOne_first_def processTweet_first_def Let_def autoBuyTokens_keeps
        split: option.splits)
  show "analyzedIds (events (checkOne_first cfg e m tw)) = analyzedIds (events m) @ [tweetId tw]"
    using assms
    by (cases "hasCryptoContent ?an")
      (simp_all add: checkOne_first_def processTweet_first_def Let_def autoBuyTokens_keeps
        split: option.splits)
qed

lemma first_revision_order:
  "analyzedIds (events (foldl (checkOne_first cfg e) m ts)) =
     analyzedIds (events m) @ fresh (processedTweets m) (map tweetId ts)"
proof (induction ts arbitrary: m)
  case Nil
  then show ?case by simp
next
  case (Cons t ts)
  show ?case
  proof (cases "tweetId t \<in> processedTweets m")
    case True
    then show ?thesis using Cons.IH [of m] by (simp add: checkOne_first_seen)
  next
    case False
    then show ?thesis
      using Cons.IH [of "checkOne_first cfg e m t"] by (simp add: checkOne_first_new)
  qed
qed

lemma checkForNewTweets_first_order:
  "analyzedIds (events (checkForNewTweets_first cfg e m tweets)) =
     analyzedIds (events m) @ fresh (processedTweets m) (map tweetId tweets)"
  by (simp add: checkForNewTweets_first_def first_revision_order)

text \<open>
  C7. The \<open>checkForNewTweets\<close> of src/utils/twitterMonitor.js runs the detector on the
  fetched tweets oldest first (\<open>checkForNewTweets_oldest_first\<close>). The first revision of
  the monitor does not: fed the three new posts P3 (newest), P2, P1 (oldest), it evaluates
  them as fetched, P3, then P2, then P1, where the later revision evaluates P1, P2, P3.
\<close>

theorem first_revision_newest_first:
  "events (checkForNewTweets_first demoConfig demoEnv newMonitor [P3, P2, P1]) =
     [Analyzed ''3'', Alert ''3'', Analyzed ''2'', Alert ''2'', Analyzed ''1'']
   \<and> analyzedIds (events (checkForNewTweets_first demoConfig demoEnv newMonitor [P3, P2, P1])) =
     [''3'', ''2'', ''1'']
   \<and> events (checkForNewTweets demoConfig demoEnv newMonitor [P3, P2, P1]) =
     [Analyzed ''1'', Analyzed ''2'', Alert ''2'', Pause, Analyzed ''3'', Alert ''3'', Pause]
   \<and> analyzedIds (events (checkForNewTweets demoConfig demoEnv newMonitor [P3, P2, P1])) =
     [''1'', ''2'', ''3'']"
proof -
  have "events (checkForNewTweets_first demoConfig demoEnv newMonitor [P3, P2, P1]) =
     [Analyzed ''3'', Alert ''3'', Analyzed ''2'', Alert ''2'', Analyzed ''1'']"
    by code_simp
  moreover have "events (checkForNewTweets demoConfig demoEnv newMonitor [P3, P2, P1]) =
     [Analyzed ''1'', Analyzed ''2'', Alert ''2'', Pause, Analyzed ''3'', Alert ''3'', Pause]"
    by code_simp
  ultimately show ?thesis
    by (simp add: analyzedIds_def)
qed

section \<open>The profit tracker\<close>

lemma revalue_cases:
  "currentPriceOf pw p = None \<Longrightarrow> revalue pw p = p"
  "currentPriceOf pw p = Some price \<Longrightarrow> price \<noteq> 0 \<Longrightarrow>
     revalue pw p = p \<lparr> currentValue := quantityReceived p * price,
                         profitLoss := quantityReceived p * price - amount p,
                         profitPercentage :=
                           ((quantityReceived p * price - amount p) / amount p) * 100 \<rparr>"
  by (simp_all add: revalue_def Let_def)

text \<open>
  C8. \<open>updateProfitLoss\<close> keeps the positions and their order and treats each on its own.
  A position whose price query gives a price (a number other than 0) gets
  \<open>currentValue = quantityReceived * currentPrice\<close> and
  \<open>profitLoss = currentValue - amount\<close>, \<open>amount\<close> being the cost basis; nothing else of it
  changes but the percentage. A position whose price query fails (\<open>null\<close>) is left as it
  was, whatever happens to the others.
\<close>

theorem revaluation_per_position:
  "length (updateProfitLoss pw ps) = length ps
   \<and> (k < length ps \<longrightarrow>
        (currentPriceOf pw (ps ! k) = Some price \<and> price \<noteq> 0 \<longrightarrow>
           currentValue (updateProfitLoss pw ps ! k) = quantityReceived (ps ! k) * price \<and>
           profitLoss (updateProfitLoss pw ps ! k) =
             currentValue (updateProfitLoss pw ps ! k) - amount (ps ! k) \<and>
           updateProfitLoss pw ps ! k =
             (ps ! k) \<lparr> currentValue := currentValue (updateProfitLoss pw ps ! k),
                         profitLoss := profitLoss (updateProfitLoss pw ps ! k),
                         profitPercentage := profitPercentage (updateProfitLoss pw ps ! k) \<rparr>) \<and>
        (currentPriceOf pw (ps ! k) = None \<longrightarrow> updateProfitLoss pw ps ! k = ps ! k))"
  by (auto simp: updateProfitLoss_def revalue_cases)

theorem revaluation_per_position_witness:
  "currentPriceOf demoPrices positionStale = None
   \<and> currentPriceOf demoPrices positionQuoted = Some (2 / 1000)
   \<and> quantityReceived positionQuoted = 1000 \<and> amount positionQuoted = 1
   \<and> updateProfitLoss demoPrices [positionStale, positionQuoted] ! 0 = positionStale
   \<and> currentValue (updateProfitLoss demoPrices [positionStale, positionQuoted] ! 1) = 2
   \<and> profitLoss (updateProfitLoss demoPrices [positionStale, positionQuoted] ! 1) = 1"
proof -
  have p1: "currentPriceOf demoPrices positionStale = None"
    by (simp add: currentPriceOf_def positionStale_def getSolanaTokenPrice_def demoPrices_def)
  have p2: "currentPriceOf demoPrices positionQuoted = Some (2 / 1000)"
    by (simp add: currentPriceOf_def positionQuoted_def getSolanaTokenPrice_def demoPrices_def
        baseAmount_def)
  have q: "quantityReceived positionQuoted = 1000" "amount positionQuoted = 1"
    by (simp_all add: quantityReceived_def positionQuoted_def)
  from revaluation_per_position [of demoPrices "[positionStale, positionQuoted]" 0 0]
    revaluation_per_position [of demoPrices "[positionStale, positionQuoted]" 1 "2 / 1000"]
    p1 p2 q
  show ?thesis by simp
qed

end
